theory Spec2Isabelle
  imports Complex_Main
begin

section \<open>JavaScript values used by the services\<close>

text \<open>
  Strings are lists of characters with code below 256.

  A number is a double: not a number, a finite value, which is a rational, or one of the
  two infinities. The sign of zero, which no comparison sees, is left out. Comparison is
  that of the values and is false as soon as one side is \<open>NaN\<close>.
\<close>

datatype jsnum = NaN | Num rat | PosInf | NegInf

fun num_le :: "jsnum \<Rightarrow> jsnum \<Rightarrow> bool" where
  "num_le NaN b = False"
| "num_le a NaN = False"
| "num_le NegInf b = True"
| "num_le a PosInf = True"
| "num_le (Num x) (Num y) = (x \<le> y)"
| "num_le a b = False"

definition num_ge :: "jsnum \<Rightarrow> jsnum \<Rightarrow> bool" where
  "num_ge a b = num_le b a"

definition num_gt :: "jsnum \<Rightarrow> jsnum \<Rightarrow> bool" where
  "num_gt a b = (num_le b a \<and> \<not> num_le a b)"

text \<open>
  The arithmetic of doubles gives the double nearest to the exact result. That rounding
  belongs to the platform and is the parameter \<open>rnd\<close> of every function that computes
  or reads a number: \<open>rnd x\<close> is the double for the exact value \<open>x\<close>, an infinity when
  \<open>x\<close> is out of range. The operations below are those the code uses: the sum of two
  numbers, the product and the quotient of a number with a positive constant, and
  \<open>Math.ceil\<close>; \<open>Math.max\<close> is there to state the number of result pages.
\<close>

fun num_add :: "(rat \<Rightarrow> jsnum) \<Rightarrow> jsnum \<Rightarrow> jsnum \<Rightarrow> jsnum" where
  "num_add rnd NaN b = NaN"
| "num_add rnd a NaN = NaN"
| "num_add rnd PosInf NegInf = NaN"
| "num_add rnd NegInf PosInf = NaN"
| "num_add rnd PosInf b = PosInf"
| "num_add rnd a PosInf = PosInf"
| "num_add rnd NegInf b = NegInf"
| "num_add rnd a NegInf = NegInf"
| "num_add rnd (Num x) (Num y) = rnd (x + y)"

fun num_scale :: "(rat \<Rightarrow> jsnum) \<Rightarrow> jsnum \<Rightarrow> rat \<Rightarrow> jsnum" where
  "num_scale rnd (Num x) k = rnd (x * k)"
| "num_scale rnd a k = a"

fun num_divide :: "(rat \<Rightarrow> jsnum) \<Rightarrow> jsnum \<Rightarrow> rat \<Rightarrow> jsnum" where
  "num_divide rnd (Num x) k = rnd (x / k)"
| "num_divide rnd a k = a"

fun num_ceil :: "jsnum \<Rightarrow> jsnum" where
  "num_ceil (Num x) = Num (of_int \<lceil>x\<rceil>)"
| "num_ceil a = a"

definition num_max :: "jsnum \<Rightarrow> jsnum \<Rightarrow> jsnum" where
  "num_max a b = (if a = NaN \<or> b = NaN then NaN else if num_le a b then b else a)"

text \<open>
  What is assumed of the rounding where a property depends on it, all of it true of the
  rounding to the nearest double: it keeps the order, it leaves the whole numbers up to
  \<open>2^53\<close> as they are, and from the smallest normal double on it loses less than half
  of the value.
\<close>

definition rounding :: "(rat \<Rightarrow> jsnum) \<Rightarrow> bool" where
  "rounding rnd =
     ((\<forall>x y. x \<le> y \<longrightarrow> num_le (rnd x) (rnd y)) \<and>
      (\<forall>n::int. \<bar>n\<bar> \<le> 2 ^ 53 \<longrightarrow> rnd (of_int n) = Num (of_int n)) \<and>
      (\<forall>x. 1 / 2 ^ 1022 \<le> x \<longrightarrow> num_le (Num (x / 2)) (rnd x)))"

subsection \<open>Character classes\<close>

definition chr_code :: "char \<Rightarrow> nat" where
  "chr_code c = of_char c"

text \<open>White space of \<open>String.prototype.trim\<close> and of the regular expression class \<open>\s\<close>.\<close>

definition isWhite :: "char \<Rightarrow> bool" where
  "isWhite c = (chr_code c \<in> {9, 10, 11, 12, 13, 32, 160})"

text \<open>The class \<open>\d\<close>.\<close>

definition isDigit :: "char \<Rightarrow> bool" where
  "isDigit c = (48 \<le> chr_code c \<and> chr_code c \<le> 57)"

definition isUpper :: "char \<Rightarrow> bool" where
  "isUpper c = (65 \<le> chr_code c \<and> chr_code c \<le> 90)"

definition isLower :: "char \<Rightarrow> bool" where
  "isLower c = (97 \<le> chr_code c \<and> chr_code c \<le> 122)"

text \<open>The class \<open>\w\<close>.\<close>

definition isWord :: "char \<Rightarrow> bool" where
  "isWord c = (isUpper c \<or> isLower c \<or> isDigit c \<or> c = CHR ''_'')"

text \<open>The line terminators, which the regular expression \<open>.\<close> does not match.\<close>

definition isLineTerminator :: "char \<Rightarrow> bool" where
  "isLineTerminator c = (chr_code c = 10 \<or> chr_code c = 13)"

text \<open>
  \<open>toLowerCase\<close> on one character: the Latin capital letters, and the capital letters
  of the range 0xC0 to 0xDE apart from the multiplication sign.
\<close>

definition lowerChar :: "char \<Rightarrow> char" where
  "lowerChar c =
     (if isUpper c \<or> (192 \<le> chr_code c \<and> chr_code c \<le> 222 \<and> chr_code c \<noteq> 215)
      then char_of (chr_code c + 32) else c)"

definition toLowerCase :: "string \<Rightarrow> string" where
  "toLowerCase s = map lowerChar s"

subsection \<open>String operations\<close>

definition trim :: "string \<Rightarrow> string" where
  "trim s = rev (dropWhile isWhite (rev (dropWhile isWhite s)))"

definition startsWith :: "string \<Rightarrow> string \<Rightarrow> bool" where
  "startsWith s p = (take (length p) s = p)"

definition endsWith :: "string \<Rightarrow> string \<Rightarrow> bool" where
  "endsWith s p = (length p \<le> length s \<and> drop (length s - length p) s = p)"

fun str_includes :: "string \<Rightarrow> string \<Rightarrow> bool" where
  "str_includes [] p = (p = [])"
| "str_includes (c # cs) p = (startsWith (c # cs) p \<or> str_includes cs p)"

text \<open>\<open>split\<close> on the characters of a class; the result is never empty.\<close>

fun splitBy :: "(char \<Rightarrow> bool) \<Rightarrow> string \<Rightarrow> string list" where
  "splitBy sep [] = [[]]"
| "splitBy sep (c # cs) =
     (if sep c then [] # splitBy sep cs
      else (case splitBy sep cs of [] \<Rightarrow> [[c]] | p # ps \<Rightarrow> (c # p) # ps))"

definition splitOn :: "char \<Rightarrow> string \<Rightarrow> string list" where
  "splitOn d s = splitBy (\<lambda>c. c = d) s"

fun join :: "string \<Rightarrow> string list \<Rightarrow> string" where
  "join sep [] = []"
| "join sep [x] = x"
| "join sep (x # y # ys) = x @ sep @ join sep (y # ys)"

definition newline :: char where
  "newline = CHR 0x0A"

text \<open>
  \<open>replace\<close> with a global regular expression and a fixed replacement. The matcher
  gives the length of the match that starts at the head of its argument, if there is one;
  every pattern used here matches at least one character and looks at nothing before the
  match.
\<close>

function replaceAll :: "(string \<Rightarrow> nat option) \<Rightarrow> string \<Rightarrow> string \<Rightarrow> string" where
  "replaceAll m rep [] = []"
| "replaceAll m rep (c # cs) =
     (case m (c # cs) of
        Some k \<Rightarrow> rep @ replaceAll m rep (drop (k - 1) cs)
      | None \<Rightarrow> c # replaceAll m rep cs)"
  by pat_completeness auto
termination
  by (relation "measure (\<lambda>(m, rep, s). length s)") auto

subsection \<open>Numbers read from strings\<close>

definition digitsVal :: "string \<Rightarrow> nat" where
  "digitsVal ds = foldl (\<lambda>a c. 10 * a + (chr_code c - 48)) 0 ds"

text \<open>
  \<open>parseInt(s, 10)\<close>: leading white space, a sign, then the longest run of digits; the
  result is the double for the whole number read, \<open>NaN\<close> without a digit.
\<close>

definition parseInt :: "(rat \<Rightarrow> jsnum) \<Rightarrow> string \<Rightarrow> jsnum" where
  "parseInt rnd s =
     (let t = dropWhile isWhite s;
          neg = (t \<noteq> [] \<and> hd t = CHR ''-'');
          u = (if t \<noteq> [] \<and> (hd t = CHR ''-'' \<or> hd t = CHR ''+'') then tl t else t);
          ds = takeWhile isDigit u
      in if ds = [] then NaN
         else rnd (if neg then - of_nat (digitsVal ds) else of_nat (digitsVal ds)))"

text \<open>
  \<open>parseFloat\<close> on a string of digits and dots, the only strings \<open>parseVttTimestamp\<close>
  receives: the longest prefix that is a decimal literal is read, and the result is the
  double for its value, \<open>NaN\<close> when there is no such prefix.
\<close>

definition parseFloat :: "(rat \<Rightarrow> jsnum) \<Rightarrow> string \<Rightarrow> jsnum" where
  "parseFloat rnd s =
     (let ip = takeWhile isDigit s;
          r = dropWhile isDigit s;
          fp = (if r \<noteq> [] \<and> hd r = CHR ''.'' then takeWhile isDigit (tl r) else [])
      in if ip = [] \<and> fp = [] then NaN
         else rnd (of_nat (digitsVal ip) + of_nat (digitsVal fp) / 10 ^ length fp))"



subsection \<open>Errors\<close>

text \<open>
  \<open>createWOLError\<close> builds an \<open>Error\<close> carrying one of five codes (types.ts, WOLError); the
  \<open>details\<close> payload is left out. Every other thrown value is an \<open>OtherError\<close>: its flag
  says whether it is an \<open>Error\<close> instance with a truthy \<open>code\<close> property, which is what
  the catch blocks of the public operations test, and its string is what \<open>String(error)\<close>
  renders.
\<close>

datatype errcode = SERVICE_UNAVAILABLE | NOT_FOUND | INVALID_QUERY | NETWORK_ERROR | PARSE_ERROR

datatype thrown = WOLError errcode string | OtherError bool string

definition createWOLError :: "errcode \<Rightarrow> string \<Rightarrow> thrown" where
  "createWOLError c message = WOLError c message"

fun hasCode :: "thrown \<Rightarrow> bool" where
  "hasCode (WOLError c m) = True"
| "hasCode (OtherError b m) = b"

fun render :: "thrown \<Rightarrow> string" where
  "render (WOLError c m) = ''Error: '' @ m"
| "render (OtherError b m) = m"

fun kind :: "thrown \<Rightarrow> errcode option" where
  "kind (WOLError c m) = Some c"
| "kind (OtherError b m) = None"

fun message :: "thrown \<Rightarrow> string" where
  "message (WOLError c m) = m"
| "message (OtherError b m) = m"

text \<open>\<open>new Error(msg)\<close>: no code, rendered with the prefix of its name.\<close>

definition plainError :: "string \<Rightarrow> thrown" where
  "plainError msg = OtherError False (''Error: '' @ msg)"

text \<open>
  The catch block shared by the public operations: an error with a code passes through,
  anything else is wrapped as a \<open>NETWORK_ERROR\<close> whose message quotes it.
\<close>

definition rethrow :: "string \<Rightarrow> thrown \<Rightarrow> thrown" where
  "rethrow prefix e = (if hasCode e then e else createWOLError NETWORK_ERROR (prefix @ render e))"

section \<open>Resilient fetch\<close>

text \<open>
  One attempt of \<open>fetch\<close> either throws (network failure, abort on timeout) or returns a
  response, whatever its status. The outcomes of the successive attempts are a function of
  the attempt index \<open>i\<close>. The loop returns its result together with the trace of what it
  did: the attempts made, the warnings logged and the delays slept, in milliseconds.
\<close>

datatype 'r attempt = Throws thrown | Returns 'r

datatype event = Attempt nat | Warn nat | Sleep nat

function retryLoop ::
  "(nat \<Rightarrow> 'r attempt) \<Rightarrow> nat \<Rightarrow> nat \<Rightarrow> event list \<Rightarrow> (thrown + 'r) \<times> event list" where
  "retryLoop fetch retries i tr =
     (if i < retries then
        (case fetch i of
           Returns response \<Rightarrow> (Inr response, tr @ [Attempt i])
         | Throws e \<Rightarrow>
             if i = retries - 1 then (Inl e, tr @ [Attempt i, Warn (i + 1)])
             else retryLoop fetch retries (i + 1)
                    (tr @ [Attempt i, Warn (i + 1), Sleep (2 ^ i * 1000)]))
      else (Inl (plainError ''Max retries exceeded''), tr))"
  by pat_completeness auto
termination
  by (relation "measure (\<lambda>(fetch, retries, i, tr). retries - i)") auto

declare retryLoop.simps [simp del]

definition MAX_RETRIES :: nat where
  "MAX_RETRIES = 3"

text \<open>\<open>WOLService.fetchWithRetry(url, retries = MAX_RETRIES)\<close>.\<close>

definition wol_fetchWithRetry ::
  "(nat \<Rightarrow> 'r attempt) \<Rightarrow> nat \<Rightarrow> (thrown + 'r) \<times> event list" where
  "wol_fetchWithRetry fetch retries = retryLoop fetch retries 0 []"

text \<open>\<open>VideoService.fetchWithRetry(url, accept)\<close>: the bound is the class constant.\<close>

definition video_fetchWithRetry :: "(nat \<Rightarrow> 'r attempt) \<Rightarrow> (thrown + 'r) \<times> event list" where
  "video_fetchWithRetry fetch = retryLoop fetch MAX_RETRIES 0 []"

text \<open>What a trace shows: the attempts made, the delays slept, one failed round.\<close>

definition attempts :: "event list \<Rightarrow> nat list" where
  "attempts tr = concat (map (\<lambda>ev. case ev of Attempt i \<Rightarrow> [i] | _ \<Rightarrow> []) tr)"

definition delays :: "event list \<Rightarrow> nat list" where
  "delays tr = concat (map (\<lambda>ev. case ev of Sleep d \<Rightarrow> [d] | _ \<Rightarrow> []) tr)"

definition failedRound :: "nat \<Rightarrow> event list" where
  "failedRound j = [Attempt j, Warn (j + 1), Sleep (2 ^ j * 1000)]"

definition throwsAt :: "(nat \<Rightarrow> 'r attempt) \<Rightarrow> nat \<Rightarrow> bool" where
  "throwsAt fetch i = (case fetch i of Throws e \<Rightarrow> True | Returns r \<Rightarrow> False)"

text \<open>A response: its status, and the outcome of reading its body as text.\<close>

record response =
  status :: nat
  body :: "thrown + string"



section \<open>Video subtitles (videoService.ts)\<close>

subsection \<open>Timestamps\<close>

text \<open>
  \<open>parseVttTimestamp\<close>: three parts are hours, minutes and seconds, two parts are minutes
  and seconds, anything else is 0.
\<close>

definition parseVttTimestamp :: "(rat \<Rightarrow> jsnum) \<Rightarrow> string \<Rightarrow> jsnum" where
  "parseVttTimestamp rnd timestamp =
     (case splitOn CHR '':'' (trim timestamp) of
        [h, m, s] \<Rightarrow>
          num_add rnd
            (num_add rnd (num_scale rnd (parseInt rnd h) 3600) (num_scale rnd (parseInt rnd m) 60))
            (parseFloat rnd s)
      | [m, s] \<Rightarrow> num_add rnd (num_scale rnd (parseInt rnd m) 60) (parseFloat rnd s)
      | _ \<Rightarrow> Num 0)"

text \<open>
  The expression \<open>(\d+:[\d:.]+)\s*-->\s*(\d+:[\d:.]+)\<close> of \<open>filterVttByTimeRange\<close>.
  No class of the expression overlaps the token that follows it, so the greedy match at a
  position is the only candidate there: \<open>tsToken\<close> reads one group and gives it with the
  rest of the line, \<open>tsMatchAt\<close> the two groups of a match starting at the head, and
  \<open>matchTimestamp\<close> those of the leftmost match.
\<close>

definition isTsChar :: "char \<Rightarrow> bool" where
  "isTsChar c = (isDigit c \<or> c = CHR '':'' \<or> c = CHR ''.'')"

definition tsToken :: "string \<Rightarrow> (string \<times> string) option" where
  "tsToken s =
     (let ds = takeWhile isDigit s; r = dropWhile isDigit s
      in if ds = [] then None
         else (case r of
                 [] \<Rightarrow> None
               | c # r2 \<Rightarrow>
                   if c = CHR '':'' \<and> takeWhile isTsChar r2 \<noteq> []
                   then Some (ds @ [c] @ takeWhile isTsChar r2, dropWhile isTsChar r2)
                   else None))"

definition tsMatchAt :: "string \<Rightarrow> (string \<times> string) option" where
  "tsMatchAt s =
     (case tsToken s of
        None \<Rightarrow> None
      | Some (g1, r) \<Rightarrow>
          (let r' = dropWhile isWhite r
           in if startsWith r' ''-->''
              then (case tsToken (dropWhile isWhite (drop 3 r')) of
                      None \<Rightarrow> None
                    | Some (g2, rest) \<Rightarrow> Some (g1, g2))
              else None))"

fun matchTimestamp :: "string \<Rightarrow> (string \<times> string) option" where
  "matchTimestamp [] = None"
| "matchTimestamp (c # cs) =
     (case tsMatchAt (c # cs) of Some g \<Rightarrow> Some g | None \<Rightarrow> matchTimestamp cs)"

subsection \<open>Filtering by time range\<close>

text \<open>A line that the inner loops take as text of the current cue.\<close>

definition isCueText :: "string \<Rightarrow> bool" where
  "isCueText l = (trim l \<noteq> [] \<and> \<not> str_includes l ''-->'')"

text \<open>The test of \<open>filterVttByTimeRange\<close> on a cue.\<close>

definition overlaps :: "jsnum \<Rightarrow> jsnum \<Rightarrow> jsnum \<Rightarrow> jsnum \<Rightarrow> bool" where
  "overlaps cueStart cueEnd startTime endTime = (num_ge cueEnd startTime \<and> num_le cueStart endTime)"

text \<open>
  The second loop of \<open>filterVttByTimeRange\<close>, on the lines from index \<open>i\<close> on; the
  result is what it pushes on \<open>filteredLines\<close>.
\<close>

function processCues :: "(rat \<Rightarrow> jsnum) \<Rightarrow> jsnum \<Rightarrow> jsnum \<Rightarrow> string list \<Rightarrow> string list" where
  "processCues rnd startTime endTime [] = []"
| "processCues rnd startTime endTime (line # rest) =
     (if str_includes line ''-->'' then
        (case matchTimestamp line of
           Some (g1, g2) \<Rightarrow>
             if overlaps (parseVttTimestamp rnd g1) (parseVttTimestamp rnd g2) startTime endTime
             then line # takeWhile isCueText rest @ [[]] @
                  processCues rnd startTime endTime (dropWhile isCueText rest)
             else processCues rnd startTime endTime (dropWhile isCueText rest)
         | None \<Rightarrow> processCues rnd startTime endTime rest)
      else processCues rnd startTime endTime rest)"
  by pat_completeness auto
termination
  by (relation "measure (\<lambda>(r, a, b, ls). length ls)") (auto simp: le_imp_less_Suc length_dropWhile_le)

definition filterVttByTimeRange :: "(rat \<Rightarrow> jsnum) \<Rightarrow> string \<Rightarrow> jsnum \<Rightarrow> jsnum \<Rightarrow> string" where
  "filterVttByTimeRange rnd vttContent startTime endTime =
     (let lines = splitOn newline vttContent;
          cues = dropWhile (\<lambda>l. \<not> str_includes l ''-->'') lines;
          filteredLines = [''WEBVTT'', []] @ processCues rnd startTime endTime cues
      in trim (join [newline] filteredLines))"

subsection \<open>Cleaning\<close>

text \<open>A key, digits and a percent sign: \<open>line:\d+%\<close>, \<open>position:\d+%\<close>.\<close>

definition m_percent :: "string \<Rightarrow> string \<Rightarrow> nat option" where
  "m_percent key s =
     (if startsWith s key then
        (let r = drop (length key) s; ds = takeWhile isDigit r
         in if ds \<noteq> [] \<and> startsWith (dropWhile isDigit r) ''%''
            then Some (length key + length ds + 1) else None)
      else None)"

text \<open>A key and word characters: \<open>align:\w+\<close>.\<close>

definition m_word :: "string \<Rightarrow> string \<Rightarrow> nat option" where
  "m_word key s =
     (if startsWith s key then
        (let ws = takeWhile isWord (drop (length key) s)
         in if ws \<noteq> [] then Some (length key + length ws) else None)
      else None)"

text \<open>An opening character, at least one character that is not the closing one, the
  closing character: \<open><[^>]+>\<close>, \<open>\{[^}]+\}\<close>.\<close>

definition m_bracket :: "char \<Rightarrow> char \<Rightarrow> string \<Rightarrow> nat option" where
  "m_bracket opening closing s =
     (case s of
        [] \<Rightarrow> None
      | c # r \<Rightarrow>
          if c = opening \<and> takeWhile (\<lambda>x. x \<noteq> closing) r \<noteq> [] \<and> dropWhile (\<lambda>x. x \<noteq> closing) r \<noteq> []
          then Some (length (takeWhile (\<lambda>x. x \<noteq> closing) r) + 2) else None)"

definition m_char :: "char \<Rightarrow> string \<Rightarrow> nat option" where
  "m_char d s = (case s of [] \<Rightarrow> None | c # r \<Rightarrow> if c = d then Some 1 else None)"

definition backslash :: char where
  "backslash = CHR 0x5C"


subsection \<open>Plain text\<close>

text \<open>The replacements applied to one trimmed cue line.\<close>

definition cleanCueText :: "string \<Rightarrow> string" where
  "cleanCueText trimmed =
     trim (replaceAll (m_char backslash) []
            (replaceAll (m_word ''align:'') []
              (replaceAll (m_percent ''position:'') []
                (replaceAll (m_percent ''line:'') []
                  (replaceAll (m_bracket CHR ''{'' CHR ''}'') []
                    (replaceAll (m_bracket CHR ''<'' CHR ''>'') [] trimmed))))))"

text \<open>The test \<open>/^\d+$/\<close>.\<close>

definition allDigits :: "string \<Rightarrow> bool" where
  "allDigits s = (s \<noteq> [] \<and> list_all isDigit s)"

text \<open>The first loop of \<open>vttToPlainText\<close>: the state is \<open>inCue\<close>, the result \<open>textLines\<close>.\<close>

fun collectText :: "bool \<Rightarrow> string list \<Rightarrow> string list" where
  "collectText inCue [] = []"
| "collectText inCue (line # rest) =
     (let trimmed = trim line in
      if trimmed = ''WEBVTT'' \<or> trimmed = [] then collectText False rest
      else if str_includes trimmed ''-->'' then collectText True rest
      else if allDigits trimmed then collectText inCue rest
      else if inCue \<and> trimmed \<noteq> [] then
        (let cleanText = cleanCueText trimmed
         in if cleanText \<noteq> [] then cleanText # collectText inCue rest
            else collectText inCue rest)
      else collectText inCue rest)"

text \<open>
  The test \<open>/[.!?:;]["']?\s*$/\<close> on the sentence built so far: after the trailing white
  space is dropped, the sentence ends with a terminal punctuation mark, or with a quote
  that follows one.
\<close>

definition isTerminal :: "char \<Rightarrow> bool" where
  "isTerminal c = (c \<in> set ''.!?:;'')"

definition isQuote :: "char \<Rightarrow> bool" where
  "isQuote c = (c = CHR 0x22 \<or> c = CHR 0x27)"

definition endsSentence :: "string \<Rightarrow> bool" where
  "endsSentence s =
     (case dropWhile isWhite (rev s) of
        [] \<Rightarrow> False
      | c # r \<Rightarrow> isTerminal c \<or> (isQuote c \<and> r \<noteq> [] \<and> isTerminal (hd r)))"

text \<open>
  The second loop of \<open>vttToPlainText\<close>: \<open>currentSentence\<close> and \<open>result\<close> are the
  state, the value is \<open>result\<close> after the last sentence has been pushed.
\<close>

fun joinSentences :: "string \<Rightarrow> string list \<Rightarrow> string list \<Rightarrow> string list" where
  "joinSentences currentSentence result [] =
     (if currentSentence \<noteq> [] then result @ [trim currentSentence] else result)"
| "joinSentences currentSentence result (line # rest) =
     (if endsWith currentSentence line then joinSentences currentSentence result rest
      else if currentSentence \<noteq> [] \<and> \<not> endsSentence currentSentence
        then joinSentences (currentSentence @ '' '' @ line) result rest
      else if currentSentence \<noteq> []
        then joinSentences line (result @ [trim currentSentence]) rest
      else joinSentences line result rest)"

definition vttToPlainText :: "string \<Rightarrow> string" where
  "vttToPlainText vttContent =
     join [newline] (joinSentences [] [] (collectText False (splitOn newline vttContent)))"


subsection \<open>URLs\<close>

text \<open>
  The parts of a parsed \<open>URL\<close> object that the code reads or writes; \<open>searchParams\<close> is
  the decoded list of name and value pairs, in order. The parser \<open>new URL(s)\<close> of the
  platform is a parameter of every function that calls it: \<open>None\<close> is its \<open>TypeError\<close>.
\<close>

record url =
  protocol :: string
  hostname :: string
  port :: string
  pathname :: string
  searchParams :: "(string \<times> string) list"
  hash :: string

text \<open>\<open>searchParams.get(name)\<close>: the first value under the name.\<close>

definition getParam :: "(string \<times> string) list \<Rightarrow> string \<Rightarrow> string option" where
  "getParam params name = map_of params name"

text \<open>\<open>a || b\<close> on values that are a string or \<open>null\<close>: the empty string is falsy.\<close>

definition orElse :: "string option \<Rightarrow> string option \<Rightarrow> string option" where
  "orElse a b = (case a of Some v \<Rightarrow> if v \<noteq> [] then Some v else b | None \<Rightarrow> b)"

text \<open>The test \<open>!a\<close> on such a value: what is left is a string that is not empty.\<close>

definition nonEmpty :: "string option \<Rightarrow> string option" where
  "nonEmpty a = (case a of Some v \<Rightarrow> if v \<noteq> [] then Some v else None | None \<Rightarrow> None)"

subsection \<open>The video identifier\<close>

datatype idType = Pub | Docid

record ParsedVideoParams =
  pv_id :: string
  pv_track :: string
  pv_language :: string
  pv_type :: idType

text \<open>
  The two expressions of \<open>parseVideoUrl\<close>, \<open>/^pub-([a-zA-Z0-9-]+)_(.+)_VIDEO$/i\<close> and
  \<open>/^docid-(\d+)_(.+)_VIDEO$/i\<close>, share their form: a fixed prefix, an identifier made
  of the characters of a class and ended by the first underscore, a track of at least one
  character with no line terminator, and the suffix \<open>_VIDEO\<close> at the end of the string.
  The flag \<open>i\<close> lets the letters of the prefix and of the suffix be of either case.
\<close>

definition isPubIdChar :: "char \<Rightarrow> bool" where
  "isPubIdChar c = (isUpper c \<or> isLower c \<or> isDigit c \<or> c = CHR ''-'')"

definition matchIdentifier :: "string \<Rightarrow> (char \<Rightarrow> bool) \<Rightarrow> string \<Rightarrow> (string \<times> string) option" where
  "matchIdentifier prefix idChar lank =
     (if toLowerCase (take (length prefix) lank) = prefix then
        (let r = drop (length prefix) lank;
             ident = takeWhile idChar r
         in (case dropWhile idChar r of
               [] \<Rightarrow> None
             | c # r3 \<Rightarrow>
                 if ident \<noteq> [] \<and> c = CHR ''_'' \<and> 6 < length r3 \<and>
                    toLowerCase (drop (length r3 - 6) r3) = ''_video'' \<and>
                    \<not> list_ex isLineTerminator (take (length r3 - 6) r3)
                 then Some (ident, take (length r3 - 6) r3)
                 else None))
      else None)"

definition parseVideoUrl :: "(string \<Rightarrow> url option) \<Rightarrow> string \<Rightarrow> thrown + ParsedVideoParams" where
  "parseVideoUrl parseURL u =
     (case parseURL u of
        None \<Rightarrow> Inl (createWOLError INVALID_QUERY ''Invalid URL format'')
      | Some urlObj \<Rightarrow>
          (let params = searchParams urlObj in
           case nonEmpty (orElse (getParam params ''wtlocale'') (getParam params ''appLanguage'')) of
             None \<Rightarrow>
               Inl (createWOLError INVALID_QUERY
                 (''Could not determine video language from URL. Expected '' @ [CHR 0x27] @ ''wtlocale'' @
                  [CHR 0x27] @ '' or '' @ [CHR 0x27] @ ''appLanguage'' @ [CHR 0x27] @ '' parameter.''))
           | Some language \<Rightarrow>
               (case nonEmpty (orElse (getParam params ''lank'') (getParam params ''item'')) of
                  None \<Rightarrow>
                    Inl (createWOLError INVALID_QUERY
                      (''Could not find video identifier in URL. Expected '' @ [CHR 0x27] @ ''lank'' @
                       [CHR 0x27] @ '' or '' @ [CHR 0x27] @ ''item'' @ [CHR 0x27] @ '' parameter.''))
                | Some lank \<Rightarrow>
                    (case matchIdentifier ''pub-'' isPubIdChar lank of
                       Some (i, t) \<Rightarrow>
                         Inr \<lparr>pv_id = i, pv_track = t, pv_language = language, pv_type = Pub\<rparr>
                     | None \<Rightarrow>
                         (case matchIdentifier ''docid-'' isDigit lank of
                            Some (i, t) \<Rightarrow>
                              Inr \<lparr>pv_id = i, pv_track = t, pv_language = language, pv_type = Docid\<rparr>
                          | None \<Rightarrow>
                              Inl (createWOLError INVALID_QUERY
                                (''Unrecognized video identifier format: '' @ lank @
                                 ''. Expected formats like pub-{id}_{track}_VIDEO or docid-{id}_{track}_VIDEO'')))))))"

subsection \<open>Media metadata and subtitles\<close>

record PubMediaVideoFile =
  vf_title :: string
  vf_label :: string
  vf_duration :: jsnum
  vf_subtitles :: "string option"
  vf_trackImage :: "string option"

record PubMediaResponse =
  pubName :: string
  pub :: string
  track :: jsnum
  files :: "string \<rightharpoonup> PubMediaVideoFile list option"




datatype format = Vtt | Text | Both











section \<open>URL resolution and search results (utils.ts)\<close>

subsection \<open>Language routing\<close>

text \<open>
  \<open>normalizeIsoLanguageCode\<close>; the argument is \<open>None\<close> when no language is given.
\<close>

definition normalizeIsoLanguageCode :: "string option \<Rightarrow> string" where
  "normalizeIsoLanguageCode language =
     (let input = toLowerCase (case nonEmpty language of Some l \<Rightarrow> l | None \<Rightarrow> ''en'');
          primary = (case splitBy (\<lambda>c. c = CHR ''-'' \<or> c = CHR ''_'') input of p # ps \<Rightarrow> p | [] \<Rightarrow> [])
      in if primary \<noteq> [] then primary else ''en'')"

text \<open>
  An entry of the routing table \<open>wol_languages.json\<close>. The table itself is not among the
  sources: it is the parameter \<open>mapping\<close> of \<open>resolveWolConfig\<close>, \<open>None\<close> where it has no
  entry under the key.
\<close>

record wolEntry =
  lp :: "string option"
  rsconf :: "string option"

record wolConfig =
  cfg_lp :: string
  cfg_rev :: string

definition resolveWolConfig :: "(string \<rightharpoonup> wolEntry) \<Rightarrow> string option \<Rightarrow> wolConfig" where
  "resolveWolConfig mapping language =
     (let norm = normalizeIsoLanguageCode language;
          entry = mapping norm
      in \<lparr>cfg_lp =
            (case nonEmpty (case entry of Some e \<Rightarrow> lp e | None \<Rightarrow> None) of
               Some v \<Rightarrow> v
             | None \<Rightarrow> if norm = ''en'' then ''e'' else norm),
          cfg_rev =
            (case nonEmpty (case entry of Some e \<Rightarrow> rsconf e | None \<Rightarrow> None) of
               Some v \<Rightarrow> v
             | None \<Rightarrow> ''r1'')\<rparr>)"

subsection \<open>Document URLs\<close>

text \<open>
  The loop \<open>parsed.searchParams.forEach\<close> of \<open>validateAndNormalizeDocumentURL\<close>, which
  appends to \<open>clean\<close> the pairs whose name is in the set \<open>allowed\<close>.
\<close>

definition allowed :: "string list" where
  "allowed = [''q'', ''p'']"

fun appendAllowed :: "(string \<times> string) list \<Rightarrow> (string \<times> string) list \<Rightarrow> (string \<times> string) list" where
  "appendAllowed clean [] = clean"
| "appendAllowed clean ((k, v) # rest) =
     (if k \<in> set allowed then appendAllowed (clean @ [(k, v)]) rest else appendAllowed clean rest)"

text \<open>
  \<open>validateAndNormalizeDocumentURL\<close>. Beside the parser, the serialiser \<open>toString\<close> of
  the platform is a parameter. Assigning \<open>parsed.search\<close> the serialised \<open>clean\<close>, or
  the empty string when \<open>clean\<close> is empty, leaves the object with \<open>clean\<close> as its
  parameters.
\<close>

definition recognizedHost :: "string \<Rightarrow> bool" where
  "recognizedHost h = (endsWith (toLowerCase h) ''jw.org'' \<and> str_includes (toLowerCase h) ''wol'')"

text \<open>The test \<open>/\/wol\/d\//i\<close> on the path.\<close>

definition documentPath :: "string \<Rightarrow> bool" where
  "documentPath p = str_includes (toLowerCase p) ''/wol/d/''"

definition normalizedURL :: "url \<Rightarrow> url" where
  "normalizedURL parsed = parsed\<lparr>searchParams := appendAllowed [] (searchParams parsed)\<rparr>"

definition validateAndNormalizeDocumentURL ::
  "(string \<Rightarrow> url option) \<Rightarrow> (url \<Rightarrow> string) \<Rightarrow> string \<Rightarrow> thrown + string" where
  "validateAndNormalizeDocumentURL parseURL toString urlString =
     (case parseURL urlString of
        None \<Rightarrow> Inl (plainError ''Invalid URL'')
      | Some parsed \<Rightarrow>
          if \<not> recognizedHost (hostname parsed) then
            Inl (plainError ''URL must be a jw.org WOL document'')
          else if \<not> documentPath (pathname parsed) then
            Inl (plainError ''URL must point to a WOL document (contains /wol/d/)'')
          else Inr (toString (normalizedURL parsed)))"

subsection \<open>Search operators\<close>

text \<open>
  \<open>validateOperators\<close>: the query is not empty and made of letters, numbers, white space
  and the listed signs. Letters and numbers are the Unicode classes L and N below 256.
\<close>

definition isLetter :: "char \<Rightarrow> bool" where
  "isLetter c =
     (isUpper c \<or> isLower c \<or> chr_code c \<in> {170, 181, 186} \<or>
      (192 \<le> chr_code c \<and> chr_code c \<noteq> 215 \<and> chr_code c \<noteq> 247))"

definition isNumber :: "char \<Rightarrow> bool" where
  "isNumber c = (isDigit c \<or> chr_code c \<in> {178, 179, 185, 188, 189, 190})"

definition isOperatorChar :: "char \<Rightarrow> bool" where
  "isOperatorChar c =
     (isLetter c \<or> isNumber c \<or> isWhite c \<or> c \<in> set ''&+|/^%!*?#()_-'' \<or> c = CHR 0x22 \<or> c = backslash)"

definition validateOperators :: "string \<Rightarrow> bool" where
  "validateOperators query = (query \<noteq> [] \<and> list_all isOperatorChar query)"

subsection \<open>Search results\<close>

datatype resultType = Key_publication | Document_result | Subheading

record SearchResult =
  sr_title :: string
  sr_url :: string
  sr_snippet :: string
  sr_publication :: string
  sr_occurrences :: "jsnum option"
  sr_documentId :: "string option"
  sr_resultType :: "resultType option"
  sr_subheadings :: "string list option"
  sr_contextSnippets :: "string list option"

record SearchPagination =
  totalResults :: jsnum
  pageSize :: jsnum
  totalPages :: jsnum
  currentPage :: jsnum

record SearchResponse =
  results :: "SearchResult list"
  pagination :: SearchPagination

text \<open>
  What the selectors of \<open>parseSearchResults\<close> read from the page: the results of the two
  container loops, the text of \<open>#resultsCount\<close> and the text of the selected navigation
  entry. The HTML parser that produces them is a parameter.
\<close>

record searchPage =
  sp_results :: "SearchResult list"
  sp_countContainer :: string
  sp_selected :: string

text \<open>
  The expression \<open>/([\d][\d.,]*)/\<close>: the leftmost digit with the digits, dots and commas
  that follow it.
\<close>

definition isCountChar :: "char \<Rightarrow> bool" where
  "isCountChar c = (isDigit c \<or> c = CHR ''.'' \<or> c = CHR '','')"

definition matchCount :: "string \<Rightarrow> string option" where
  "matchCount s =
     (case dropWhile (\<lambda>c. \<not> isDigit c) s of [] \<Rightarrow> None | c # r \<Rightarrow> Some (c # takeWhile isCountChar r))"

text \<open>
  The total read from the count badge: the separators are removed from the match and what
  is left is read by \<open>parseInt\<close>; 0 without a match.
\<close>

definition countOf :: "(rat \<Rightarrow> jsnum) \<Rightarrow> string \<Rightarrow> jsnum" where
  "countOf rnd text =
     (case matchCount text of
        Some g \<Rightarrow> parseInt rnd (filter (\<lambda>c. c \<noteq> CHR ''.'' \<and> c \<noteq> CHR '','') g)
      | None \<Rightarrow> Num 0)"

definition parseSearchResults :: "(rat \<Rightarrow> jsnum) \<Rightarrow> searchPage \<Rightarrow> SearchResponse" where
  "parseSearchResults rnd page =
     (let total = countOf rnd (sp_countContainer page);
          size = 40;
          pages = (if num_gt total (Num 0) then num_ceil (num_divide rnd total size) else Num 1);
          current = (if sp_selected page \<noteq> [] \<and> list_ex isDigit (sp_selected page)
                     then parseInt rnd (sp_selected page) else Num 1)
      in \<lparr>results = sp_results page,
          pagination =
            \<lparr>totalResults = total, pageSize = Num size, totalPages = pages, currentPage = current\<rparr>\<rparr>)"


section \<open>The public operations (WOLService)\<close>

record SearchOptions =
  opt_useOperators :: "bool option"
  opt_scope :: "string option"
  opt_publications :: "string list option"
  opt_language :: "string option"
  opt_limit :: "jsnum option"
  opt_sortType :: "string option"
  opt_page :: "jsnum option"

text \<open>
  \<open>documentResults.slice(0, limit)\<close>, which is asked for when the limit is truthy, that
  is neither 0 nor \<open>NaN\<close>: the bound is truncated to a whole number, and a negative
  bound counts from the end.
\<close>

definition sliceTo :: "jsnum \<Rightarrow> 'a list \<Rightarrow> 'a list" where
  "sliceTo bound xs =
     (case bound of
        Num x \<Rightarrow>
          (let k = (if 0 \<le> x then \<lfloor>x\<rfloor> else \<lceil>x\<rceil>)
           in if k < 0 then take (nat (int (length xs) + k)) xs else take (nat k) xs)
      | PosInf \<Rightarrow> xs
      | NegInf \<Rightarrow> []
      | NaN \<Rightarrow> [])"

definition limited :: "jsnum option \<Rightarrow> 'a list \<Rightarrow> 'a list" where
  "limited bound xs =
     (case bound of
        None \<Rightarrow> xs
      | Some b \<Rightarrow> if b = NaN \<or> b = Num 0 then xs else sliceTo b xs)"

text \<open>
  The body of the \<open>try\<close> block of \<open>search\<close>. The search URL is built from the query and
  the options, so the outcomes of the attempts to fetch it are a function \<open>web\<close> of
  those; \<open>load\<close> is the HTML parser with the selectors of \<open>parseSearchResults\<close>.
\<close>

definition search_try ::
  "(rat \<Rightarrow> jsnum) \<Rightarrow> (string \<Rightarrow> SearchOptions \<Rightarrow> nat \<Rightarrow> response attempt) \<Rightarrow> (string \<Rightarrow> searchPage) \<Rightarrow>
   string \<Rightarrow> SearchOptions \<Rightarrow> thrown + SearchResponse" where
  "search_try rnd web load query options =
     (if \<not> validateOperators query \<and> opt_useOperators options = Some True then
        Inl (createWOLError INVALID_QUERY ''Invalid characters or operators in query'')
      else
        (case fst (wol_fetchWithRetry (web query options) MAX_RETRIES) of
           Inl e \<Rightarrow> Inl e
         | Inr response \<Rightarrow>
             (case body response of
                Inl e \<Rightarrow> Inl e
              | Inr html \<Rightarrow>
                  if status response = 404 then
                    Inr \<lparr>results = [],
                         pagination = \<lparr>totalResults = Num 0, pageSize = Num 40, totalPages = Num 1,
                                       currentPage = (case opt_page options of Some p \<Rightarrow> p | None \<Rightarrow> Num 1)\<rparr>\<rparr>
                  else if status response = 502 \<or> status response = 503 then
                    Inl (createWOLError SERVICE_UNAVAILABLE ''WOL service temporarily unavailable'')
                  else
                    (let parsed = parseSearchResults rnd (load html);
                         keyPublications =
                           filter (\<lambda>r. sr_resultType r = Some Key_publication) (results parsed);
                         documentResults =
                           filter (\<lambda>r. sr_resultType r = Some Document_result) (results parsed);
                         limitedDocuments = limited (opt_limit options) documentResults
                     in Inr \<lparr>results = keyPublications @ limitedDocuments,
                             pagination = pagination parsed\<rparr>))))"

definition search ::
  "(rat \<Rightarrow> jsnum) \<Rightarrow> (string \<Rightarrow> SearchOptions \<Rightarrow> nat \<Rightarrow> response attempt) \<Rightarrow> (string \<Rightarrow> searchPage) \<Rightarrow>
   string \<Rightarrow> SearchOptions \<Rightarrow> thrown + SearchResponse" where
  "search rnd web load query options =
     (case search_try rnd web load query options of
        Inl e \<Rightarrow> Inl (rethrow ''Search failed: '' e)
      | Inr r \<Rightarrow> Inr r)"

text \<open>
  \<open>getDocumentByUrl\<close>. The fields of a document beyond those written here stay in the
  extension of the record. \<open>parseDocument\<close>, which works on the parsed HTML, and the two
  converters of the content are parameters.
\<close>

record Document =
  doc_id :: string
  doc_title :: string
  doc_content :: string
  doc_publication :: string
  doc_url :: string
  doc_language :: string

definition m_nbsp :: "string \<Rightarrow> nat option" where
  "m_nbsp s = (if toLowerCase (take 6 s) = ''&nbsp;'' then Some 6 else None)"

definition getDocumentByUrl_try ::
  "(string \<Rightarrow> url option) \<Rightarrow> (url \<Rightarrow> string) \<Rightarrow> (string \<Rightarrow> nat \<Rightarrow> response attempt) \<Rightarrow>
   (string \<Rightarrow> string \<Rightarrow> thrown + 'a Document_scheme) \<Rightarrow> (string \<Rightarrow> string) \<Rightarrow> (string \<Rightarrow> string) \<Rightarrow>
   string \<Rightarrow> string \<Rightarrow> thrown + 'a Document_scheme" where
  "getDocumentByUrl_try parseURL toString web parseDocument convertToMarkdown convertToPlainText u fmt =
     (case validateAndNormalizeDocumentURL parseURL toString u of
        Inl e \<Rightarrow> Inl e
      | Inr documentUrl \<Rightarrow>
          (case fst (wol_fetchWithRetry (web documentUrl) MAX_RETRIES) of
             Inl e \<Rightarrow> Inl e
           | Inr response \<Rightarrow>
               if status response = 404 then Inl (createWOLError NOT_FOUND ''Document not found'')
               else if status response = 502 \<or> status response = 503 then
                 Inl (createWOLError SERVICE_UNAVAILABLE ''WOL service temporarily unavailable'')
               else
                 (case body response of
                    Inl e \<Rightarrow> Inl e
                  | Inr html \<Rightarrow>
                      (case parseDocument html documentUrl of
                         Inl e \<Rightarrow> Inl e
                       | Inr document \<Rightarrow>
                           (let content =
                                  replaceAll (m_char (CHR 0xA0)) '' ''
                                    (replaceAll m_nbsp '' '' (doc_content document))
                            in Inr (document
                                 \<lparr>doc_url := documentUrl,
                                  doc_content :=
                                    (if fmt = ''markdown'' then convertToMarkdown content
                                     else if fmt = ''plain'' then convertToPlainText content
                                     else content)\<rparr>))))))"

definition getDocumentByUrl ::
  "(string \<Rightarrow> url option) \<Rightarrow> (url \<Rightarrow> string) \<Rightarrow> (string \<Rightarrow> nat \<Rightarrow> response attempt) \<Rightarrow>
   (string \<Rightarrow> string \<Rightarrow> thrown + 'a Document_scheme) \<Rightarrow> (string \<Rightarrow> string) \<Rightarrow> (string \<Rightarrow> string) \<Rightarrow>
   string \<Rightarrow> string \<Rightarrow> thrown + 'a Document_scheme" where
  "getDocumentByUrl parseURL toString web parseDocument convertToMarkdown convertToPlainText u fmt =
     (case getDocumentByUrl_try parseURL toString web parseDocument convertToMarkdown convertToPlainText u fmt of
        Inl e \<Rightarrow> Inl (rethrow ''Document retrieval failed: '' e)
      | Inr d \<Rightarrow> Inr d)"


section \<open>The identifier shapes as the specification words them\<close>

text \<open>
  A string has the shape \<open>prefix{id}_{track}_VIDEO\<close> when it is the prefix, an identifier
  that is not empty and made of the characters allowed in it, an underscore, a track that
  is not empty and holds no line terminator, and the suffix \<open>_VIDEO\<close>; the letters of the
  prefix and of the suffix may be of either case.
\<close>

definition identifierShape :: "string \<Rightarrow> (char \<Rightarrow> bool) \<Rightarrow> string \<Rightarrow> string \<Rightarrow> string \<Rightarrow> bool" where
  "identifierShape prefix idChar lank ident trk =
     (\<exists>p v. lank = p @ ident @ ''_'' @ trk @ v \<and> toLowerCase p = prefix \<and> toLowerCase v = ''_video'' \<and>
            ident \<noteq> [] \<and> list_all idChar ident \<and> trk \<noteq> [] \<and> \<not> list_ex isLineTerminator trk)"


text \<open>A string that shows something: it holds a character that is not white space.\<close>

definition visible :: "string \<Rightarrow> bool" where
  "visible s = (\<exists>c\<in>set s. \<not> isWhite c)"


section \<open>Concrete inputs\<close>

text \<open>An upstream whose first attempt fails and whose second answers 503.\<close>

definition flaky :: "nat \<Rightarrow> nat attempt" where
  "flaky i = (if i = 0 then Throws (OtherError False ''TypeError: fetch failed'') else Returns 503)"

text \<open>An upstream that fails at every attempt, each time with another error.\<close>

definition down :: "nat \<Rightarrow> nat attempt" where
  "down i = Throws (OtherError False
     (if i = 0 then ''TypeError: fetch failed'' else if i = 1 then ''AbortError: aborted''
      else ''Error: read ECONNRESET''))"

text \<open>A routing table with one entry, for Portuguese.\<close>

definition routes :: "string \<rightharpoonup> wolEntry" where
  "routes = [''pt'' \<mapsto> \<lparr>lp = Some ''t'', rsconf = Some ''r5''\<rparr>]"

text \<open>Two cues, the text of the second being the last word of the first.\<close>

definition vtt_suffix :: string where
  "vtt_suffix =
     ''WEBVTT'' @ [newline, newline] @
     ''00:01.000 --> 00:02.000'' @ [newline] @ ''I said no'' @ [newline, newline] @
     ''00:02.000 --> 00:03.000'' @ [newline] @ ''no''"

text \<open>
  A subtitle file with a cue from 10 to 15 seconds, written with hours, and a cue from 30
  to 35 seconds, written without.
\<close>

definition cue_10_15 :: "string list" where
  "cue_10_15 = [''00:00:10.000 --> 00:00:15.000'', ''Hello'']"

definition cue_30_35 :: "string list" where
  "cue_30_35 = [''00:30.000 --> 00:35.000 align:start'', ''Goodbye'']"

definition vtt_two :: string where
  "vtt_two = join [newline] ([''WEBVTT'', []] @ cue_10_15 @ [[]] @ cue_30_35)"

text \<open>
  What \<open>new URL\<close> gives on a share link of the finder whose parameter values need no
  decoding, and a parser that knows this one link.
\<close>

definition finderLink :: "string \<Rightarrow> string \<Rightarrow> string" where
  "finderLink locale lank = ''https://www.jw.org/finder?srcid=share&wtlocale='' @ locale @ ''&lank='' @ lank"

definition finderURL :: "string \<Rightarrow> string \<Rightarrow> url" where
  "finderURL locale lank =
     \<lparr>protocol = ''https:'', hostname = ''www.jw.org'', port = [], pathname = ''/finder'',
      searchParams = [(''srcid'', ''share''), (''wtlocale'', locale), (''lank'', lank)], hash = []\<rparr>"

definition parseFinder :: "string \<Rightarrow> string \<Rightarrow> string \<Rightarrow> url option" where
  "parseFinder locale lank s = (if s = finderLink locale lank then Some (finderURL locale lank) else None)"

text \<open>
  A parser given by the table of the links it knows, the serialisation of a URL whose parts
  need no encoding, and what \<open>new URL\<close> gives on five links: a document of the library
  with three query parameters, the same document with the path in capital letters, a
  document path on another host, the home page of the library, and a document path on a
  host outside \<open>jw.org\<close> whose name ends with these letters.
\<close>

definition parserOf :: "(string \<times> url) list \<Rightarrow> string \<Rightarrow> url option" where
  "parserOf known s = map_of known s"

definition plainHref :: "url \<Rightarrow> string" where
  "plainHref u =
     protocol u @ ''//'' @ hostname u @ pathname u @
     (if searchParams u = [] then []
      else ''?'' @ join ''&'' (map (\<lambda>(k, v). k @ ''='' @ v) (searchParams u))) @
     hash u"

definition wolURL :: "string \<Rightarrow> string \<Rightarrow> (string \<times> string) list \<Rightarrow> url" where
  "wolURL host path params =
     \<lparr>protocol = ''https:'', hostname = host, port = [], pathname = path, searchParams = params, hash = []\<rparr>"

definition knownLinks :: "(string \<times> url) list" where
  "knownLinks =
     [(''https://wol.jw.org/en/wol/d/r1/lp-e/1102008070?q=faith&p=par&utm=x'',
       wolURL ''wol.jw.org'' ''/en/wol/d/r1/lp-e/1102008070'' [(''q'', ''faith''), (''p'', ''par''), (''utm'', ''x'')]),
      (''https://wol.jw.org/en/WOL/D/r1/lp-e/1102008070'',
       wolURL ''wol.jw.org'' ''/en/WOL/D/r1/lp-e/1102008070'' []),
      (''https://example.com/en/wol/d/r1/lp-e/1102008070'',
       wolURL ''example.com'' ''/en/wol/d/r1/lp-e/1102008070'' []),
      (''https://wol.jw.org/en/wol/h/r1/lp-e'',
       wolURL ''wol.jw.org'' ''/en/wol/h/r1/lp-e'' []),
      (''https://wolfjw.org/en/wol/d/r1/lp-e/1102008070'',
       wolURL ''wolfjw.org'' ''/en/wol/d/r1/lp-e/1102008070'' [])]"

text \<open>
  An upstream for the search: the first attempt fails, the second answers 404 with a body
  that can be read. Another whose answer is 404 with a body whose reading fails. The
  options of a request for page 3, a request without options, and a page parser that finds
  nothing.
\<close>

definition web404 :: "string \<Rightarrow> SearchOptions \<Rightarrow> nat \<Rightarrow> response attempt" where
  "web404 query options i =
     (if i = 0 then Throws (OtherError False ''TypeError: fetch failed'')
      else Returns \<lparr>status = 404, body = Inr ''<html>Not Found</html>''\<rparr>)"

definition web404broken :: "string \<Rightarrow> SearchOptions \<Rightarrow> nat \<Rightarrow> response attempt" where
  "web404broken query options i =
     Returns \<lparr>status = 404, body = Inl (OtherError False ''TypeError: terminated'')\<rparr>"

definition noOptions :: SearchOptions where
  "noOptions =
     \<lparr>opt_useOperators = None, opt_scope = None, opt_publications = None, opt_language = None,
      opt_limit = None, opt_sortType = None, opt_page = None\<rparr>"

definition page3 :: SearchOptions where
  "page3 = noOptions\<lparr>opt_useOperators := Some True, opt_page := Some (Num 3)\<rparr>"

definition emptyPage :: "string \<Rightarrow> searchPage" where
  "emptyPage html = \<lparr>sp_results = [], sp_countContainer = [], sp_selected = []\<rparr>"












text \<open>Pages whose count badge reads a given text.\<close>

definition pageWithCount :: "string \<Rightarrow> searchPage" where
  "pageWithCount badge = \<lparr>sp_results = [], sp_countContainer = badge, sp_selected = []\<rparr>"


section \<open>Properties of the resilient fetch\<close>

lemma retryLoop_returns:
  "i \<le> k \<Longrightarrow> k < retries \<Longrightarrow> fetch k = Returns r \<Longrightarrow>
   (\<forall>j. i \<le> j \<and> j < k \<longrightarrow> throwsAt fetch j) \<Longrightarrow>
   retryLoop fetch retries i tr = (Inr r, tr @ concat (map failedRound [i..<k]) @ [Attempt k])"
proof (induction "k - i" arbitrary: i tr)
  case 0
  then have "i = k" by simp
  with 0 show ?case by (subst retryLoop.simps) simp
next
  case (Suc d)
  then have lt: "i < k" and thr: "throwsAt fetch i" by auto
  from thr obtain e where e: "fetch i = Throws e"
    by (auto simp: throwsAt_def split: attempt.splits)
  have step: "retryLoop fetch retries i tr = retryLoop fetch retries (Suc i) (tr @ failedRound i)"
  proof -
    from lt Suc.prems(2) have "i < retries" "i \<noteq> retries - 1" by arith+
    with e show ?thesis by (subst retryLoop.simps) (simp add: failedRound_def)
  qed
  have "retryLoop fetch retries (Suc i) (tr @ failedRound i) =
        (Inr r, (tr @ failedRound i) @ concat (map failedRound [Suc i..<k]) @ [Attempt k])"
    using Suc.hyps(2) Suc.prems lt by (intro Suc.hyps(1)) auto
  with step lt show ?case by (simp add: upt_conv_Cons)
qed

lemma retryLoop_exhausted:
  "i < retries \<Longrightarrow> fetch (retries - 1) = Throws e \<Longrightarrow>
   (\<forall>j. i \<le> j \<and> j < retries \<longrightarrow> throwsAt fetch j) \<Longrightarrow>
   retryLoop fetch retries i tr =
     (Inl e, tr @ concat (map failedRound [i..<retries - 1]) @ [Attempt (retries - 1), Warn retries])"
proof (induction "retries - 1 - i" arbitrary: i tr)
  case 0
  then have "i = retries - 1" by simp
  with 0 show ?case by (subst retryLoop.simps) simp
next
  case (Suc d)
  then have lt: "i < retries - 1" and thr: "throwsAt fetch i" by auto
  from thr obtain e' where e: "fetch i = Throws e'"
    by (auto simp: throwsAt_def split: attempt.splits)
  have step: "retryLoop fetch retries i tr = retryLoop fetch retries (Suc i) (tr @ failedRound i)"
  proof -
    from lt have "i < retries" "i \<noteq> retries - 1" by arith+
    with e show ?thesis by (subst retryLoop.simps) (simp add: failedRound_def)
  qed
  have "retryLoop fetch retries (Suc i) (tr @ failedRound i) =
        (Inl e, (tr @ failedRound i) @ concat (map failedRound [Suc i..<retries - 1]) @
                [Attempt (retries - 1), Warn retries])"
    using Suc.hyps(2) Suc.prems lt by (intro Suc.hyps(1)) auto
  with step lt show ?case by (simp add: upt_conv_Cons)
qed

lemma attempts_rounds: "attempts (concat (map failedRound js) @ tr) = js @ attempts tr"
  by (induction js) (simp_all add: attempts_def failedRound_def)

lemma delays_rounds:
  "delays (concat (map failedRound js) @ tr) = map (\<lambda>j. 2 ^ j * 1000) js @ delays tr"
  by (induction js) (simp_all add: delays_def failedRound_def)

lemma retryLoop_attempts_le:
  "length (attempts (snd (retryLoop fetch retries i tr))) \<le> length (attempts tr) + (retries - i)"
proof (induction fetch retries i tr rule: retryLoop.induct)
  case (1 fetch retries i tr)
  show ?case
  proof (cases "i < retries")
    case False
    then show ?thesis by (subst retryLoop.simps) simp
  next
    case True
    show ?thesis
    proof (cases "fetch i")
      case (Returns r)
      with True show ?thesis by (subst retryLoop.simps) (simp add: attempts_def)
    next
      case (Throws e)
      show ?thesis
      proof (cases "i = retries - 1")
        case True
        with \<open>i < retries\<close> Throws show ?thesis
          by (subst retryLoop.simps) (simp add: attempts_def)
      next
        case False
        from "1.IH" [OF True Throws False] True Throws False show ?thesis
          by (subst retryLoop.simps) (simp add: attempts_def)
      qed
    qed
  qed
qed

text \<open>
  C2. Whatever the outcomes of the attempts, \<open>fetchWithRetry\<close> with the bound
  \<open>MAX_RETRIES = 3\<close> makes at most three attempts. When attempt \<open>k\<close> (counted from 0) is the
  first to return a response, that response is the result, whatever its status, no attempt
  follows it, and the failed attempts \<open>j < k\<close> were each followed by a delay of \<open>2^j\<close>
  seconds. When all three attempts throw, the result is the error of the last attempt, as
  thrown, after delays of 1 and 2 seconds. The loop of \<open>VideoService\<close> is the same one.
\<close>

theorem fetchWithRetry_policy:
  "length (attempts (snd (wol_fetchWithRetry fetch MAX_RETRIES))) \<le> MAX_RETRIES \<and>
   (\<forall>k r. k < MAX_RETRIES \<and> (\<forall>j<k. throwsAt fetch j) \<and> fetch k = Returns r \<longrightarrow>
      fst (wol_fetchWithRetry fetch MAX_RETRIES) = Inr r \<and>
      attempts (snd (wol_fetchWithRetry fetch MAX_RETRIES)) = [0..<k + 1] \<and>
      delays (snd (wol_fetchWithRetry fetch MAX_RETRIES)) = map (\<lambda>j. 2 ^ j * 1000) [0..<k]) \<and>
   (\<forall>e. (\<forall>j<MAX_RETRIES. throwsAt fetch j) \<and> fetch (MAX_RETRIES - 1) = Throws e \<longrightarrow>
      fst (wol_fetchWithRetry fetch MAX_RETRIES) = Inl e \<and>
      attempts (snd (wol_fetchWithRetry fetch MAX_RETRIES)) = [0..<MAX_RETRIES] \<and>
      delays (snd (wol_fetchWithRetry fetch MAX_RETRIES)) = map (\<lambda>j. 2 ^ j * 1000) [0..<MAX_RETRIES - 1]) \<and>
   video_fetchWithRetry fetch = wol_fetchWithRetry fetch MAX_RETRIES \<and> MAX_RETRIES = 3"
proof (intro conjI allI impI)
  show "length (attempts (snd (wol_fetchWithRetry fetch MAX_RETRIES))) \<le> MAX_RETRIES"
    using retryLoop_attempts_le [of fetch MAX_RETRIES 0 "[]"]
    by (simp add: wol_fetchWithRetry_def attempts_def)
next
  fix k r
  assume h: "k < MAX_RETRIES \<and> (\<forall>j<k. throwsAt fetch j) \<and> fetch k = Returns r"
  then have eq: "wol_fetchWithRetry fetch MAX_RETRIES =
      (Inr r, concat (map failedRound [0..<k]) @ [Attempt k])"
    unfolding wol_fetchWithRetry_def using retryLoop_returns [of 0 k MAX_RETRIES fetch r "[]"] by simp
  show "fst (wol_fetchWithRetry fetch MAX_RETRIES) = Inr r" by (simp add: eq)
  show "attempts (snd (wol_fetchWithRetry fetch MAX_RETRIES)) = [0..<k + 1]"
    by (simp add: eq attempts_rounds) (simp add: attempts_def)
  show "delays (snd (wol_fetchWithRetry fetch MAX_RETRIES)) = map (\<lambda>j. 2 ^ j * 1000) [0..<k]"
    by (simp add: eq delays_rounds) (simp add: delays_def)
next
  fix e
  assume h: "(\<forall>j<MAX_RETRIES. throwsAt fetch j) \<and> fetch (MAX_RETRIES - 1) = Throws e"
  have pos: "0 < MAX_RETRIES" by (simp add: MAX_RETRIES_def)
  have last: "fetch (MAX_RETRIES - 1) = Throws e" using h by simp
  have all: "\<forall>j. 0 \<le> j \<and> j < MAX_RETRIES \<longrightarrow> throwsAt fetch j"
    using h by simp
  have eq: "wol_fetchWithRetry fetch MAX_RETRIES =
      (Inl e,
       concat (map failedRound [0..<MAX_RETRIES - 1]) @ [Attempt (MAX_RETRIES - 1), Warn MAX_RETRIES])"
    unfolding wol_fetchWithRetry_def using retryLoop_exhausted [OF pos last all, of "[]"] by simp
  show "fst (wol_fetchWithRetry fetch MAX_RETRIES) = Inl e" by (simp add: eq)
  show "attempts (snd (wol_fetchWithRetry fetch MAX_RETRIES)) = [0..<MAX_RETRIES]"
    using pos by (simp add: eq attempts_rounds) (simp add: attempts_def MAX_RETRIES_def upt_rec)
  show "delays (snd (wol_fetchWithRetry fetch MAX_RETRIES)) = map (\<lambda>j. 2 ^ j * 1000) [0..<MAX_RETRIES - 1]"
    by (simp add: eq delays_rounds) (simp add: delays_def)
next
  show "video_fetchWithRetry fetch = wol_fetchWithRetry fetch MAX_RETRIES"
    by (simp add: video_fetchWithRetry_def wol_fetchWithRetry_def)
next
  show "MAX_RETRIES = 3" by (simp add: MAX_RETRIES_def)
qed

theorem fetchWithRetry_policy_witness:
  "fst (wol_fetchWithRetry flaky MAX_RETRIES) = Inr 503 \<and>
   attempts (snd (wol_fetchWithRetry flaky MAX_RETRIES)) = [0, 1] \<and>
   delays (snd (wol_fetchWithRetry flaky MAX_RETRIES)) = [1000] \<and>
   fst (wol_fetchWithRetry down MAX_RETRIES) = Inl (OtherError False ''Error: read ECONNRESET'') \<and>
   attempts (snd (wol_fetchWithRetry down MAX_RETRIES)) = [0, 1, 2] \<and>
   delays (snd (wol_fetchWithRetry down MAX_RETRIES)) = [1000, 2000]"
proof -
  have a: "(1::nat) < MAX_RETRIES \<and> (\<forall>j<1. throwsAt flaky j) \<and> flaky 1 = Returns 503"
    by (simp add: MAX_RETRIES_def throwsAt_def flaky_def)
  have b: "(\<forall>j<MAX_RETRIES. throwsAt down j) \<and>
           down (MAX_RETRIES - 1) = Throws (OtherError False ''Error: read ECONNRESET'')"
    by (simp add: down_def throwsAt_def MAX_RETRIES_def)
  have up: "[0..<2] = [0, Suc 0]" "[0..<3] = [0, Suc 0, 2]" by (simp_all add: upt_rec)
  from fetchWithRetry_policy [of flaky] a
  have 1: "fst (wol_fetchWithRetry flaky MAX_RETRIES) = Inr 503 \<and>
      attempts (snd (wol_fetchWithRetry flaky MAX_RETRIES)) = [0..<1 + 1] \<and>
      delays (snd (wol_fetchWithRetry flaky MAX_RETRIES)) = map (\<lambda>j. 2 ^ j * 1000) [0..<1]"
    by blast
  from fetchWithRetry_policy [of down] b
  have 2: "fst (wol_fetchWithRetry down MAX_RETRIES) = Inl (OtherError False ''Error: read ECONNRESET'') \<and>
      attempts (snd (wol_fetchWithRetry down MAX_RETRIES)) = [0..<MAX_RETRIES] \<and>
      delays (snd (wol_fetchWithRetry down MAX_RETRIES)) = map (\<lambda>j. 2 ^ j * 1000) [0..<MAX_RETRIES - 1]"
    by blast
  from 1 2 show ?thesis by (simp add: MAX_RETRIES_def up)
qed


section \<open>Properties of the rounding\<close>

lemma rounding_Num: "rounding Num"
  by (simp add: rounding_def)

lemma rounding_whole: "rounding rnd \<Longrightarrow> n \<le> 2 ^ 53 \<Longrightarrow> rnd (of_nat n) = Num (of_nat n)"
proof -
  assume r: "rounding rnd" and n: "n \<le> 2 ^ 53"
  from n have "\<bar>int n\<bar> \<le> 2 ^ 53" by (simp add: of_nat_le_iff [of n "2 ^ 53", where ?'a = int, simplified])
  with r have "rnd (of_int (int n)) = Num (of_int (int n))" unfolding rounding_def by blast
  then show ?thesis by simp
qed

lemma rounding_zero: "rounding rnd \<Longrightarrow> rnd 0 = Num 0"
  using rounding_whole [of rnd 0] by simp

lemma rounding_one_le: "rounding rnd \<Longrightarrow> 1 \<le> n \<Longrightarrow> num_le (Num 1) (rnd (of_nat n))"
proof -
  assume r: "rounding rnd" and n: "1 \<le> n"
  from r have "num_le (rnd 1) (rnd (of_nat n))" unfolding rounding_def using n by simp
  moreover have "rnd 1 = Num 1" using rounding_whole [OF r, of 1] by simp
  ultimately show ?thesis by simp
qed


section \<open>Properties of the search\<close>

text \<open>
  C1, amended. When the request is sent (the query passes the validation of its operators,
  or the validation is not asked for), the response that \<open>fetchWithRetry\<close> returns has the
  status 404 and its body is read without error, \<open>search\<close> returns, with no results and
  the pagination \<open>totalResults = 0\<close>, \<open>pageSize = 40\<close>, \<open>totalPages = 1\<close> and
  \<open>currentPage\<close> the page asked for, 1 when none was.
\<close>

theorem search_404_empty:
  "\<not> (\<not> validateOperators query \<and> opt_useOperators options = Some True) \<and>
   fst (wol_fetchWithRetry (web query options) MAX_RETRIES) = Inr response \<and>
   status response = 404 \<and> body response = Inr html \<longrightarrow>
   search rnd web load query options =
     Inr \<lparr>results = [],
          pagination = \<lparr>totalResults = Num 0, pageSize = Num 40, totalPages = Num 1,
                        currentPage = (case opt_page options of Some p \<Rightarrow> p | None \<Rightarrow> Num 1)\<rparr>\<rparr>"
  by (auto simp: search_def search_try_def)

theorem search_404_empty_witness:
  "search Num web404 emptyPage ''faith & hope'' page3 =
     Inr \<lparr>results = [],
          pagination = \<lparr>totalResults = Num 0, pageSize = Num 40, totalPages = Num 1, currentPage = Num 3\<rparr>\<rparr> \<and>
   search Num web404 emptyPage ''faith & hope'' noOptions =
     Inr \<lparr>results = [],
          pagination = \<lparr>totalResults = Num 0, pageSize = Num 40, totalPages = Num 1, currentPage = Num 1\<rparr>\<rparr>"
proof -
  let ?r = "\<lparr>status = 404, body = Inr ''<html>Not Found</html>''\<rparr>"
  have v: "validateOperators ''faith & hope''" by code_simp
  have f: "\<And>options. fst (wol_fetchWithRetry (web404 ''faith & hope'' options) MAX_RETRIES) = Inr ?r"
    by (simp add: wol_fetchWithRetry_def MAX_RETRIES_def web404_def retryLoop.simps [of _ 3 0]
        retryLoop.simps [of _ 3 "Suc 0"])
  have a: "\<And>options. \<not> (\<not> validateOperators ''faith & hope'' \<and> opt_useOperators options = Some True) \<and>
     fst (wol_fetchWithRetry (web404 ''faith & hope'' options) MAX_RETRIES) = Inr ?r \<and>
     status ?r = 404 \<and> body ?r = Inr ''<html>Not Found</html>''"
    using v f by simp
  from search_404_empty [of "''faith & hope''" page3 web404 ?r "''<html>Not Found</html>''" Num emptyPage] a [of page3]
  have 1: "search Num web404 emptyPage ''faith & hope'' page3 =
     Inr \<lparr>results = [],
          pagination = \<lparr>totalResults = Num 0, pageSize = Num 40, totalPages = Num 1,
                        currentPage = (case opt_page page3 of Some p \<Rightarrow> p | None \<Rightarrow> Num 1)\<rparr>\<rparr>"
    by blast
  from search_404_empty [of "''faith & hope''" noOptions web404 ?r "''<html>Not Found</html>''" Num emptyPage]
    a [of noOptions]
  have 2: "search Num web404 emptyPage ''faith & hope'' noOptions =
     Inr \<lparr>results = [],
          pagination = \<lparr>totalResults = Num 0, pageSize = Num 40, totalPages = Num 1,
                        currentPage = (case opt_page noOptions of Some p \<Rightarrow> p | None \<Rightarrow> Num 1)\<rparr>\<rparr>"
    by blast
  from 1 2 show ?thesis by (simp add: page3_def noOptions_def)
qed

text \<open>
  C1 as stated fails: \<open>search\<close> reads the body before it looks at the status, so a
  response with the status 404 whose body cannot be read makes it throw a
  \<open>NETWORK_ERROR\<close>.
\<close>

theorem search_404_unread_counterexample:
  "fst (wol_fetchWithRetry (web404broken ''faith'' noOptions) MAX_RETRIES) =
     Inr \<lparr>status = 404, body = Inl (OtherError False ''TypeError: terminated'')\<rparr> \<and>
   search Num web404broken emptyPage ''faith'' noOptions =
     Inl (WOLError NETWORK_ERROR ''Search failed: TypeError: terminated'')"
proof -
  have f: "fst (wol_fetchWithRetry (web404broken ''faith'' noOptions) MAX_RETRIES) =
     Inr \<lparr>status = 404, body = Inl (OtherError False ''TypeError: terminated'')\<rparr>"
    by (simp add: wol_fetchWithRetry_def MAX_RETRIES_def web404broken_def retryLoop.simps [of _ 3 0])
  have o: "opt_useOperators noOptions = None" by (simp add: noOptions_def)
  show ?thesis
    by (simp add: f o search_def search_try_def rethrow_def createWOLError_def)
qed


section \<open>Properties of the document URL\<close>





text \<open>
  C3. The claim asks for an error of the kind \<open>INVALID_QUERY\<close>. On a string that is not a
  URL, on a host that is not recognized and on a path that is not a document path,
  \<open>validateAndNormalizeDocumentURL\<close> throws an \<open>Error\<close> without a code, and
  \<open>getDocumentByUrl\<close> reports it as a \<open>NETWORK_ERROR\<close>.
\<close>

theorem document_url_errors_have_no_kind:
  "validateAndNormalizeDocumentURL (parserOf knownLinks) plainHref ''wol.jw.org/en/wol/d/'' =
     Inl (OtherError False ''Error: Invalid URL'') \<and>
   getDocumentByUrl (parserOf knownLinks) plainHref web parseDocument md plain ''wol.jw.org/en/wol/d/'' fmt =
     Inl (WOLError NETWORK_ERROR ''Document retrieval failed: Error: Invalid URL'') \<and>
   validateAndNormalizeDocumentURL (parserOf knownLinks) plainHref
     ''https://example.com/en/wol/d/r1/lp-e/1102008070'' =
     Inl (OtherError False ''Error: URL must be a jw.org WOL document'') \<and>
   getDocumentByUrl (parserOf knownLinks) plainHref web parseDocument md plain
     ''https://example.com/en/wol/d/r1/lp-e/1102008070'' fmt =
     Inl (WOLError NETWORK_ERROR ''Document retrieval failed: Error: URL must be a jw.org WOL document'') \<and>
   validateAndNormalizeDocumentURL (parserOf knownLinks) plainHref ''https://wol.jw.org/en/wol/h/r1/lp-e'' =
     Inl (OtherError False ''Error: URL must point to a WOL document (contains /wol/d/)'') \<and>
   getDocumentByUrl (parserOf knownLinks) plainHref web parseDocument md plain
     ''https://wol.jw.org/en/wol/h/r1/lp-e'' fmt =
     Inl (WOLError NETWORK_ERROR
           ''Document retrieval failed: Error: URL must point to a WOL document (contains /wol/d/)'')"
proof -
  have 1: "validateAndNormalizeDocumentURL (parserOf knownLinks) plainHref ''wol.jw.org/en/wol/d/'' =
     Inl (OtherError False ''Error: Invalid URL'')"
    by code_simp
  have 2: "validateAndNormalizeDocumentURL (parserOf knownLinks) plainHref
     ''https://example.com/en/wol/d/r1/lp-e/1102008070'' =
     Inl (OtherError False ''Error: URL must be a jw.org WOL document'')"
    by code_simp
  have 3: "validateAndNormalizeDocumentURL (parserOf knownLinks) plainHref ''https://wol.jw.org/en/wol/h/r1/lp-e'' =
     Inl (OtherError False ''Error: URL must point to a WOL document (contains /wol/d/)'')"
    by code_simp
  show ?thesis
    by (simp add: 1 2 3 getDocumentByUrl_def getDocumentByUrl_try_def rethrow_def createWOLError_def)
qed


section \<open>Properties of the time filter\<close>

lemma digit_not_white: "isDigit c \<Longrightarrow> \<not> isWhite c"
  by (auto simp: isDigit_def isWhite_def)

lemma digit_not_sign: "isDigit c \<Longrightarrow> c \<noteq> CHR ''-'' \<and> c \<noteq> CHR ''+'' \<and> c \<noteq> CHR '':'' \<and> c \<noteq> CHR ''.''"
  by (auto simp: isDigit_def chr_code_def)

lemma trim_id: "t \<noteq> [] \<Longrightarrow> \<not> isWhite (hd t) \<Longrightarrow> \<not> isWhite (last t) \<Longrightarrow> trim t = t"
proof -
  assume t: "t \<noteq> []" and h: "\<not> isWhite (hd t)" and l: "\<not> isWhite (last t)"
  from t h have 1: "dropWhile isWhite t = t" by (cases t) simp_all
  from t l have 2: "dropWhile isWhite (rev t) = rev t"
    by (cases "rev t") (simp_all add: last_rev [symmetric] hd_rev)
  show ?thesis by (simp add: trim_def 1 2)
qed

lemma splitBy_plain: "list_all (\<lambda>c. \<not> sep c) a \<Longrightarrow> splitBy sep a = [a]"
  by (induction a) simp_all

lemma splitBy_field:
  "list_all (\<lambda>c. \<not> sep c) a \<Longrightarrow> sep d \<Longrightarrow> splitBy sep (a @ d # b) = a # splitBy sep b"
  by (induction a) simp_all

lemma takeWhile_digits: "list_all isDigit ds \<Longrightarrow> \<not> isDigit d \<Longrightarrow> takeWhile isDigit (ds @ d # r) = ds"
  by (induction ds) simp_all

lemma dropWhile_digits: "list_all isDigit ds \<Longrightarrow> \<not> isDigit d \<Longrightarrow> dropWhile isDigit (ds @ d # r) = d # r"
  by (induction ds) simp_all

lemma takeWhile_all: "list_all P xs \<Longrightarrow> takeWhile P xs = xs"
  by (induction xs) simp_all

lemma dropWhile_all: "list_all P xs \<Longrightarrow> dropWhile P xs = []"
  by (induction xs) simp_all

lemma parseInt_digits: "ds \<noteq> [] \<Longrightarrow> list_all isDigit ds \<Longrightarrow> parseInt rnd ds = rnd (of_nat (digitsVal ds))"
proof -
  assume ne: "ds \<noteq> []" and d: "list_all isDigit ds"
  then have hd: "isDigit (hd ds)" by (cases ds) simp_all
  from ne hd have w: "dropWhile isWhite ds = ds" by (cases ds) (simp_all add: digit_not_white)
  from hd have s: "hd ds \<noteq> CHR ''-''" "hd ds \<noteq> CHR ''+''" using digit_not_sign by blast+
  show ?thesis using ne by (simp add: parseInt_def Let_def w s takeWhile_all [OF d])
qed

lemma parseFloat_decimal:
  "s \<noteq> [] \<Longrightarrow> list_all isDigit s \<Longrightarrow> list_all isDigit f \<Longrightarrow>
   parseFloat rnd (s @ CHR ''.'' # f) = rnd (of_nat (digitsVal s) + of_nat (digitsVal f) / 10 ^ length f)"
proof -
  assume ne: "s \<noteq> []" and s: "list_all isDigit s" and f: "list_all isDigit f"
  have nd: "\<not> isDigit CHR ''.''" by (simp add: isDigit_def chr_code_def)
  show ?thesis
    using ne by (simp add: parseFloat_def Let_def takeWhile_digits [OF s nd] dropWhile_digits [OF s nd]
        takeWhile_all [OF f])
qed

lemma digits_no_colon: "list_all isDigit ds \<Longrightarrow> list_all (\<lambda>c. \<not> c = CHR '':'') ds"
  by (induction ds) (auto simp: digit_not_sign)

lemma parseVttTimestamp_hms:
  assumes "h \<noteq> []" "list_all isDigit h" "m \<noteq> []" "list_all isDigit m"
    "s \<noteq> []" "list_all isDigit s" "f \<noteq> []" "list_all isDigit f"
  shows "parseVttTimestamp rnd (h @ '':'' @ m @ '':'' @ s @ ''.'' @ f) =
     num_add rnd
       (num_add rnd (num_scale rnd (rnd (of_nat (digitsVal h))) 3600)
                    (num_scale rnd (rnd (of_nat (digitsVal m))) 60))
       (rnd (of_nat (digitsVal s) + of_nat (digitsVal f) / 10 ^ length f))"
proof -
  let ?t = "h @ '':'' @ m @ '':'' @ s @ ''.'' @ f"
  have hd: "\<not> isWhite (hd ?t)" using assms(1,2) by (cases h) (simp_all add: digit_not_white)
  have "isDigit (last f)" using assms(7,8) by (induction f) (auto split: if_splits)
  then have la: "\<not> isWhite (last ?t)" using assms(7) by (simp add: digit_not_white)
  have tr: "trim ?t = ?t" by (rule trim_id [OF _ hd la]) simp
  have sf: "list_all (\<lambda>c. \<not> c = CHR '':'') (s @ ''.'' @ f)"
    using digits_no_colon [OF assms(6)] digits_no_colon [OF assms(8)] by simp
  have sp: "splitOn CHR '':'' ?t = [h, m, s @ ''.'' @ f]"
    unfolding splitOn_def
    using splitBy_field [OF digits_no_colon [OF assms(2)], of "CHR '':''"]
          splitBy_field [OF digits_no_colon [OF assms(4)], of "CHR '':''"]
          splitBy_plain [OF sf]
    by simp
  show ?thesis
    unfolding parseVttTimestamp_def tr sp
    using parseInt_digits [OF assms(1,2), of rnd] parseInt_digits [OF assms(3,4), of rnd]
          parseFloat_decimal [OF assms(5,6,8), of rnd]
    by simp
qed

lemma parseVttTimestamp_ms:
  assumes "m \<noteq> []" "list_all isDigit m"
    "s \<noteq> []" "list_all isDigit s" "f \<noteq> []" "list_all isDigit f"
  shows "parseVttTimestamp rnd (m @ '':'' @ s @ ''.'' @ f) =
     num_add rnd (num_scale rnd (rnd (of_nat (digitsVal m))) 60)
       (rnd (of_nat (digitsVal s) + of_nat (digitsVal f) / 10 ^ length f))"
proof -
  let ?t = "m @ '':'' @ s @ ''.'' @ f"
  have hd: "\<not> isWhite (hd ?t)" using assms(1,2) by (cases m) (simp_all add: digit_not_white)
  have "isDigit (last f)" using assms(5,6) by (induction f) (auto split: if_splits)
  then have la: "\<not> isWhite (last ?t)" using assms(5) by (simp add: digit_not_white)
  have tr: "trim ?t = ?t" by (rule trim_id [OF _ hd la]) simp
  have sf: "list_all (\<lambda>c. \<not> c = CHR '':'') (s @ ''.'' @ f)"
    using digits_no_colon [OF assms(4)] digits_no_colon [OF assms(6)] by simp
  have sp: "splitOn CHR '':'' ?t = [m, s @ ''.'' @ f]"
    unfolding splitOn_def
    using splitBy_field [OF digits_no_colon [OF assms(2)], of "CHR '':''"]
          splitBy_plain [OF sf]
    by simp
  show ?thesis
    unfolding parseVttTimestamp_def tr sp
    using parseInt_digits [OF assms(1,2), of rnd] parseFloat_decimal [OF assms(3,4,6), of rnd]
    by simp
qed

lemma cue_block_take:
  "list_all isCueText cueLines \<Longrightarrow> rest = [] \<or> \<not> isCueText (hd rest) \<Longrightarrow>
   takeWhile isCueText (cueLines @ rest) = cueLines"
  by (induction cueLines) (auto simp: takeWhile_eq_Nil_iff)

lemma cue_block_drop:
  "list_all isCueText cueLines \<Longrightarrow> rest = [] \<or> \<not> isCueText (hd rest) \<Longrightarrow>
   dropWhile isCueText (cueLines @ rest) = rest"
  by (induction cueLines) (auto simp: dropWhile_eq_self_iff)

lemma processCues_cue:
  assumes "str_includes line ''-->''" "matchTimestamp line = Some (g1, g2)"
    "list_all isCueText cueLines" "rest = [] \<or> \<not> isCueText (hd rest)"
  shows "processCues rnd startTime endTime (line # cueLines @ rest) =
     (if num_ge (parseVttTimestamp rnd g2) startTime \<and> num_le (parseVttTimestamp rnd g1) endTime
      then line # cueLines @ [[]] else []) @ processCues rnd startTime endTime rest"
  using assms(1,2) by (simp add: overlaps_def cue_block_take [OF assms(3,4)] cue_block_drop [OF assms(3,4)])


lemma tsToken_split: "tsToken s = Some (g, r) \<Longrightarrow> s = g @ r"
proof -
  assume a: "tsToken s = Some (g, r)"
  have s: "s = takeWhile isDigit s @ dropWhile isDigit s" by simp
  show ?thesis
  proof (cases "dropWhile isDigit s")
    case Nil
    with a show ?thesis by (simp add: tsToken_def Let_def split: if_splits)
  next
    case (Cons c r2)
    with a have g: "g = takeWhile isDigit s @ [c] @ takeWhile isTsChar r2"
      and r: "r = dropWhile isTsChar r2"
      by (auto simp: tsToken_def Let_def split: if_splits)
    have "s = takeWhile isDigit s @ c # (takeWhile isTsChar r2 @ dropWhile isTsChar r2)"
      using s Cons by simp
    then show ?thesis by (simp add: g r)
  qed
qed

lemma includes_append: "str_includes b p \<Longrightarrow> str_includes (a @ b) p"
proof (induction a)
  case Nil
  then show ?case by simp
next
  case (Cons x a)
  then show ?case by simp
qed

lemma startsWith_includes: "startsWith b p \<Longrightarrow> str_includes b p"
  by (cases b) (simp_all add: startsWith_def)

lemma tsMatchAt_includes: "tsMatchAt s = Some g \<Longrightarrow> str_includes s ''-->''"
proof -
  assume a: "tsMatchAt s = Some g"
  then obtain g1 r where t: "tsToken s = Some (g1, r)"
    by (auto simp: tsMatchAt_def split: option.splits)
  with a have sw: "startsWith (dropWhile isWhite r) ''-->''"
    by (auto simp: tsMatchAt_def Let_def split: option.splits if_splits)
  have "s = (g1 @ takeWhile isWhite r) @ dropWhile isWhite r"
    using tsToken_split [OF t] by simp
  moreover have "str_includes ((g1 @ takeWhile isWhite r) @ dropWhile isWhite r) ''-->''"
    by (rule includes_append) (rule startsWith_includes [OF sw])
  ultimately show ?thesis by simp
qed

lemma matchTimestamp_includes: "matchTimestamp s = Some g \<Longrightarrow> str_includes s ''-->''"
proof (induction s)
  case Nil
  then show ?case by simp
next
  case (Cons c cs)
  show ?case
  proof (cases "tsMatchAt (c # cs)")
    case (Some g')
    from tsMatchAt_includes [OF Some] show ?thesis .
  next
    case None
    with Cons.prems have "matchTimestamp cs = Some g" by simp
    from Cons.IH [OF this] show ?thesis by simp
  qed
qed

lemma vtt_two_lines:
  "dropWhile (\<lambda>l. \<not> str_includes l ''-->'') (splitOn newline vtt_two) = cue_10_15 @ [] # cue_30_35"
  by code_simp

lemma vtt_two_match:
  "matchTimestamp ''00:00:10.000 --> 00:00:15.000'' = Some (''00:00:10.000'', ''00:00:15.000'')"
  "matchTimestamp ''00:30.000 --> 00:35.000 align:start'' = Some (''00:30.000'', ''00:35.000'')"
  "isCueText ''Hello''" "isCueText ''Goodbye''" "\<not> isCueText []"
  "\<not> str_includes [] ''-->''"
  by code_simp+

lemma vtt_two_times:
  assumes r: "rounding rnd"
  shows "parseVttTimestamp rnd ''00:00:10.000'' = Num 10"
    and "parseVttTimestamp rnd ''00:00:15.000'' = Num 15"
    and "parseVttTimestamp rnd ''00:30.000'' = Num 30"
    and "parseVttTimestamp rnd ''00:35.000'' = Num 35"
proof -
  have d: "''00'' \<noteq> [] \<and> list_all isDigit ''00''" "''10'' \<noteq> [] \<and> list_all isDigit ''10''"
    "''15'' \<noteq> [] \<and> list_all isDigit ''15''" "''30'' \<noteq> [] \<and> list_all isDigit ''30''"
    "''35'' \<noteq> [] \<and> list_all isDigit ''35''" "''000'' \<noteq> [] \<and> list_all isDigit ''000''"
    by code_simp+
  have v: "digitsVal ''00'' = 0" "digitsVal ''10'' = 10" "digitsVal ''15'' = 15" "digitsVal ''30'' = 30"
    "digitsVal ''35'' = 35" "digitsVal ''000'' = 0"
    by code_simp+
  have w: "rnd 0 = Num 0" "rnd 10 = Num 10" "rnd 15 = Num 15" "rnd 30 = Num 30" "rnd 35 = Num 35"
    using rounding_whole [OF r, of 0] rounding_whole [OF r, of 10] rounding_whole [OF r, of 15]
      rounding_whole [OF r, of 30] rounding_whole [OF r, of 35]
    by simp_all
  show "parseVttTimestamp rnd ''00:00:10.000'' = Num 10"
    using parseVttTimestamp_hms [of "''00''" "''00''" "''10''" "''000''" rnd] d by (simp add: v w)
  show "parseVttTimestamp rnd ''00:00:15.000'' = Num 15"
    using parseVttTimestamp_hms [of "''00''" "''00''" "''15''" "''000''" rnd] d by (simp add: v w)
  show "parseVttTimestamp rnd ''00:30.000'' = Num 30"
    using parseVttTimestamp_ms [of "''00''" "''30''" "''000''" rnd] d by (simp add: v w)
  show "parseVttTimestamp rnd ''00:35.000'' = Num 35"
    using parseVttTimestamp_ms [of "''00''" "''35''" "''000''" rnd] d by (simp add: v w)
qed

lemma vtt_two_cues:
  assumes r: "rounding rnd"
  shows "processCues rnd startTime endTime (cue_10_15 @ [] # cue_30_35) =
     (if num_ge (Num 15) startTime \<and> num_le (Num 10) endTime then cue_10_15 @ [[]] else []) @
     (if num_ge (Num 35) startTime \<and> num_le (Num 30) endTime then cue_30_35 @ [[]] else [])"
proof -
  have inc: "str_includes ''00:00:10.000 --> 00:00:15.000'' ''-->''"
    "str_includes ''00:30.000 --> 00:35.000 align:start'' ''-->''"
    using matchTimestamp_includes vtt_two_match(1,2) by blast+
  have 1: "processCues rnd startTime endTime (''00:00:10.000 --> 00:00:15.000'' # [''Hello''] @ [] # cue_30_35) =
     (if num_ge (parseVttTimestamp rnd ''00:00:15.000'') startTime \<and>
         num_le (parseVttTimestamp rnd ''00:00:10.000'') endTime
      then ''00:00:10.000 --> 00:00:15.000'' # [''Hello''] @ [[]] else []) @
     processCues rnd startTime endTime ([] # cue_30_35)"
    by (rule processCues_cue [OF inc(1) vtt_two_match(1)]) (simp_all add: vtt_two_match)
  have 2: "processCues rnd startTime endTime ([] # cue_30_35) = processCues rnd startTime endTime cue_30_35"
    by (simp add: vtt_two_match)
  have 3: "processCues rnd startTime endTime (''00:30.000 --> 00:35.000 align:start'' # [''Goodbye''] @ []) =
     (if num_ge (parseVttTimestamp rnd ''00:35.000'') startTime \<and>
         num_le (parseVttTimestamp rnd ''00:30.000'') endTime
      then ''00:30.000 --> 00:35.000 align:start'' # [''Goodbye''] @ [[]] else []) @
     processCues rnd startTime endTime []"
    by (rule processCues_cue [OF inc(2) vtt_two_match(2)]) (simp_all add: vtt_two_match)
  have c1: "cue_10_15 @ [] # cue_30_35 = ''00:00:10.000 --> 00:00:15.000'' # [''Hello''] @ [] # cue_30_35"
    by (simp add: cue_10_15_def)
  have c2: "cue_30_35 = ''00:30.000 --> 00:35.000 align:start'' # [''Goodbye''] @ []"
    by (simp add: cue_30_35_def)
  have "processCues rnd startTime endTime (cue_10_15 @ [] # cue_30_35) =
     (if num_ge (Num 15) startTime \<and> num_le (Num 10) endTime
      then ''00:00:10.000 --> 00:00:15.000'' # [''Hello''] @ [[]] else []) @
     processCues rnd startTime endTime cue_30_35"
    unfolding c1 1 2 vtt_two_times [OF r] ..
  also have "processCues rnd startTime endTime cue_30_35 =
     (if num_ge (Num 35) startTime \<and> num_le (Num 30) endTime
      then ''00:30.000 --> 00:35.000 align:start'' # [''Goodbye''] @ [[]] else [])"
    by (subst c2, subst 3) (simp add: vtt_two_times [OF r])
  finally show ?thesis by (simp add: cue_10_15_def cue_30_35_def)
qed

lemma vtt_two_trims:
  "trim (join [newline] ([''WEBVTT'', []] @ cue_10_15 @ [[]])) = join [newline] ([''WEBVTT'', []] @ cue_10_15)"
  "trim (join [newline] ([''WEBVTT'', []] @ (cue_10_15 @ [[]]) @ cue_30_35 @ [[]])) = vtt_two"
  "trim (join [newline] [''WEBVTT'', []]) = ''WEBVTT''"
  by code_simp+

text \<open>
  The parse follows the doubles of the code, not the decimal that is written: the double
  for 1.029 is \<open>289637751035265 / 2^48\<close>, the sum of 60 and that double is rounded to
  \<open>134204190263083 / 2^41\<close>, which prints as 61.028999999999996 and is below 61.029.
\<close>

lemma parseVttTimestamp_rounds:
  assumes "rnd 1 = Num 1" "rnd 60 = Num 60"
    "rnd (1029 / 1000) = Num (289637751035265 / 2 ^ 48)"
    "rnd (60 + 289637751035265 / 2 ^ 48) = Num (134204190263083 / 2 ^ 41)"
  shows "parseVttTimestamp rnd ''01:01.029'' = Num (134204190263083 / 2 ^ 41)"
    and "\<not> num_le (Num (61029 / 1000)) (parseVttTimestamp rnd ''01:01.029'')"
proof -
  have d: "digitsVal ''01'' = 1" "digitsVal ''029'' = 29" "length ''029'' = 3"
    by code_simp+
  have "parseVttTimestamp rnd (''01'' @ '':'' @ ''01'' @ ''.'' @ ''029'') =
     num_add rnd (num_scale rnd (rnd (of_nat (digitsVal ''01''))) 60)
       (rnd (of_nat (digitsVal ''01'') + of_nat (digitsVal ''029'') / 10 ^ length ''029''))"
    by (rule parseVttTimestamp_ms) (simp_all add: isDigit_def chr_code_def)
  also have "of_nat (digitsVal ''01'') + of_nat (digitsVal ''029'') / 10 ^ length ''029'' = (1029 / 1000 :: rat)"
    unfolding d by simp
  finally show 1: "parseVttTimestamp rnd ''01:01.029'' = Num (134204190263083 / 2 ^ 41)"
    using assms by (simp add: d)
  show "\<not> num_le (Num (61029 / 1000)) (parseVttTimestamp rnd ''01:01.029'')"
    unfolding 1 by simp
qed

text \<open>
  C4. In the cue loop of \<open>filterVttByTimeRange\<close>, a cue is a line on which the timestamp
  expression matches, followed by its text lines up to an empty line, a further timestamp
  line or the end. For every window, the loop pushes the cue, with the empty line that
  closes it, exactly when \<open>cueEnd >= startTime && cueStart <= endTime\<close>, and pushes nothing
  for it otherwise; \<open>cueStart\<close> and \<open>cueEnd\<close> are \<open>parseVttTimestamp\<close> of the two matched
  groups. A timestamp \<open>HH:MM:SS.mmm\<close> is read as \<open>HH * 3600 + MM * 60 + SS.mmm\<close> and a
  timestamp \<open>MM:SS.mmm\<close> as \<open>MM * 60 + SS.mmm\<close>, each number read, each product and
  each sum being a double, rounded as the platform rounds. In a file with a cue from 10 to
  15 and a cue from 30 to 35, the first cue is kept for the windows [5,12], [12,20] and
  [0,100] and dropped for [0,5] and [16,20].
\<close>

theorem filterVttByTimeRange_overlap:
  "(\<forall>line cueLines rest g1 g2.
      matchTimestamp line = Some (g1, g2) \<and> list_all isCueText cueLines \<and>
      (rest = [] \<or> \<not> isCueText (hd rest)) \<longrightarrow>
      processCues rnd startTime endTime (line # cueLines @ rest) =
        (if num_ge (parseVttTimestamp rnd g2) startTime \<and> num_le (parseVttTimestamp rnd g1) endTime
         then line # cueLines @ [[]] else []) @ processCues rnd startTime endTime rest) \<and>
   (\<forall>h m s f. allDigits h \<and> allDigits m \<and> allDigits s \<and> allDigits f \<longrightarrow>
      parseVttTimestamp rnd (h @ '':'' @ m @ '':'' @ s @ ''.'' @ f) =
        num_add rnd
          (num_add rnd (num_scale rnd (rnd (of_nat (digitsVal h))) 3600)
                       (num_scale rnd (rnd (of_nat (digitsVal m))) 60))
          (rnd (of_nat (digitsVal s) + of_nat (digitsVal f) / 10 ^ length f))) \<and>
   (\<forall>m s f. allDigits m \<and> allDigits s \<and> allDigits f \<longrightarrow>
      parseVttTimestamp rnd (m @ '':'' @ s @ ''.'' @ f) =
        num_add rnd (num_scale rnd (rnd (of_nat (digitsVal m))) 60)
          (rnd (of_nat (digitsVal s) + of_nat (digitsVal f) / 10 ^ length f))) \<and>
   (rounding rnd \<longrightarrow>
      filterVttByTimeRange rnd vtt_two (Num 5) (Num 12) = join [newline] ([''WEBVTT'', []] @ cue_10_15) \<and>
      filterVttByTimeRange rnd vtt_two (Num 12) (Num 20) = join [newline] ([''WEBVTT'', []] @ cue_10_15) \<and>
      filterVttByTimeRange rnd vtt_two (Num 0) (Num 100) = vtt_two \<and>
      filterVttByTimeRange rnd vtt_two (Num 0) (Num 5) = ''WEBVTT'' \<and>
      filterVttByTimeRange rnd vtt_two (Num 16) (Num 20) = ''WEBVTT'')"
proof (intro conjI allI impI)
  fix line cueLines rest g1 g2
  assume h: "matchTimestamp line = Some (g1, g2) \<and> list_all isCueText cueLines \<and>
      (rest = [] \<or> \<not> isCueText (hd rest))"
  then have inc: "str_includes line ''-->''" using matchTimestamp_includes by blast
  from h show "processCues rnd startTime endTime (line # cueLines @ rest) =
        (if num_ge (parseVttTimestamp rnd g2) startTime \<and> num_le (parseVttTimestamp rnd g1) endTime
         then line # cueLines @ [[]] else []) @ processCues rnd startTime endTime rest"
    using processCues_cue [OF inc] by blast
next
  fix h m s f
  assume "allDigits h \<and> allDigits m \<and> allDigits s \<and> allDigits f"
  then show "parseVttTimestamp rnd (h @ '':'' @ m @ '':'' @ s @ ''.'' @ f) =
        num_add rnd
          (num_add rnd (num_scale rnd (rnd (of_nat (digitsVal h))) 3600)
                       (num_scale rnd (rnd (of_nat (digitsVal m))) 60))
          (rnd (of_nat (digitsVal s) + of_nat (digitsVal f) / 10 ^ length f))"
    using parseVttTimestamp_hms [of h m s f rnd] by (simp add: allDigits_def)
next
  fix m s f
  assume "allDigits m \<and> allDigits s \<and> allDigits f"
  then show "parseVttTimestamp rnd (m @ '':'' @ s @ ''.'' @ f) =
        num_add rnd (num_scale rnd (rnd (of_nat (digitsVal m))) 60)
          (rnd (of_nat (digitsVal s) + of_nat (digitsVal f) / 10 ^ length f))"
    using parseVttTimestamp_ms [of m s f rnd] by (simp add: allDigits_def)
next
  assume r: "rounding rnd"
  have f: "\<And>a b. filterVttByTimeRange rnd vtt_two a b =
      trim (join [newline] ([''WEBVTT'', []] @
        (if num_ge (Num 15) a \<and> num_le (Num 10) b then cue_10_15 @ [[]] else []) @
        (if num_ge (Num 35) a \<and> num_le (Num 30) b then cue_30_35 @ [[]] else [])))"
    unfolding filterVttByTimeRange_def Let_def vtt_two_lines vtt_two_cues [OF r] ..
  show "filterVttByTimeRange rnd vtt_two (Num 5) (Num 12) = join [newline] ([''WEBVTT'', []] @ cue_10_15)"
    unfolding f using vtt_two_trims(1) by (simp add: num_ge_def)
  show "filterVttByTimeRange rnd vtt_two (Num 12) (Num 20) = join [newline] ([''WEBVTT'', []] @ cue_10_15)"
    unfolding f using vtt_two_trims(1) by (simp add: num_ge_def)
  show "filterVttByTimeRange rnd vtt_two (Num 0) (Num 100) = vtt_two"
    unfolding f using vtt_two_trims(2) by (simp add: num_ge_def)
  show "filterVttByTimeRange rnd vtt_two (Num 0) (Num 5) = ''WEBVTT''"
    unfolding f using vtt_two_trims(3) by (simp add: num_ge_def)
  show "filterVttByTimeRange rnd vtt_two (Num 16) (Num 20) = ''WEBVTT''"
    unfolding f using vtt_two_trims(3) by (simp add: num_ge_def)
qed

theorem filterVttByTimeRange_overlap_witness:
  "matchTimestamp (hd cue_10_15) = Some (''00:00:10.000'', ''00:00:15.000'') \<and>
   processCues Num (Num 5) (Num 12) (cue_10_15 @ [] # cue_30_35) =
     cue_10_15 @ [[]] @ processCues Num (Num 5) (Num 12) ([] # cue_30_35) \<and>
   processCues Num (Num 16) (Num 20) (cue_10_15 @ [] # cue_30_35) =
     processCues Num (Num 16) (Num 20) ([] # cue_30_35) \<and>
   parseVttTimestamp Num ''00:00:10.000'' = Num 10 \<and>
   parseVttTimestamp Num ''00:00:15.000'' = Num 15 \<and>
   parseVttTimestamp Num ''00:30.000'' = Num 30 \<and>
   rounding Num \<and>
   filterVttByTimeRange Num vtt_two (Num 5) (Num 12) = join [newline] ([''WEBVTT'', []] @ cue_10_15) \<and>
   filterVttByTimeRange Num vtt_two (Num 16) (Num 20) = ''WEBVTT''"
proof -
  have m: "matchTimestamp ''00:00:10.000 --> 00:00:15.000'' = Some (''00:00:10.000'', ''00:00:15.000'') \<and>
           list_all isCueText [''Hello''] \<and>
           ([] # cue_30_35 = [] \<or> \<not> isCueText (hd ([] # cue_30_35)))"
    by code_simp
  have d: "allDigits ''00'' \<and> allDigits ''00'' \<and> allDigits ''10'' \<and> allDigits ''000''"
    "allDigits ''00'' \<and> allDigits ''00'' \<and> allDigits ''15'' \<and> allDigits ''000''"
    "allDigits ''00'' \<and> allDigits ''30'' \<and> allDigits ''000''"
    by code_simp+
  have v: "digitsVal ''00'' = 0" "digitsVal ''10'' = 10" "digitsVal ''15'' = 15" "digitsVal ''30'' = 30"
    "digitsVal ''000'' = 0"
    by code_simp+
  have p10: "parseVttTimestamp Num ''00:00:10.000'' = Num 10"
    using filterVttByTimeRange_overlap [of Num, THEN conjunct2, THEN conjunct1, rule_format, OF d(1)]
    by (simp add: v)
  have p15: "parseVttTimestamp Num ''00:00:15.000'' = Num 15"
    using filterVttByTimeRange_overlap [of Num, THEN conjunct2, THEN conjunct1, rule_format, OF d(2)]
    by (simp add: v)
  have p30: "parseVttTimestamp Num ''00:30.000'' = Num 30"
    using filterVttByTimeRange_overlap [of Num, THEN conjunct2, THEN conjunct2, THEN conjunct1, rule_format, OF d(3)]
    by (simp add: v)
  have a: "processCues Num (Num 5) (Num 12) (cue_10_15 @ [] # cue_30_35) =
     cue_10_15 @ [[]] @ processCues Num (Num 5) (Num 12) ([] # cue_30_35)"
    using filterVttByTimeRange_overlap [of Num "Num 5" "Num 12", THEN conjunct1, rule_format, OF m]
    by (simp add: p10 p15 cue_10_15_def num_ge_def)
  have b: "processCues Num (Num 16) (Num 20) (cue_10_15 @ [] # cue_30_35) =
     processCues Num (Num 16) (Num 20) ([] # cue_30_35)"
    using filterVttByTimeRange_overlap [of Num "Num 16" "Num 20", THEN conjunct1, rule_format, OF m]
    by (simp add: p10 p15 cue_10_15_def num_ge_def)
  have w: "filterVttByTimeRange Num vtt_two (Num 5) (Num 12) = join [newline] ([''WEBVTT'', []] @ cue_10_15) \<and>
           filterVttByTimeRange Num vtt_two (Num 16) (Num 20) = ''WEBVTT''"
    using filterVttByTimeRange_overlap [of Num, THEN conjunct2, THEN conjunct2, THEN conjunct2] rounding_Num
    by blast
  have h: "matchTimestamp (hd cue_10_15) = Some (''00:00:10.000'', ''00:00:15.000'')"
    by code_simp
  from h a b p10 p15 p30 w rounding_Num show ?thesis by (simp only: simp_thms)
qed


section \<open>Properties of the video identifier\<close>

lemma matchIdentifier_shape:
  assumes m: "matchIdentifier prefix idChar lank = Some (i, t)"
  shows "identifierShape prefix idChar lank i t"
proof -
  let ?n = "length prefix"
  let ?r = "drop ?n lank"
  from m have pre: "toLowerCase (take ?n lank) = prefix"
    by (simp add: matchIdentifier_def split: if_splits)
  from m pre obtain c r3 where dw: "dropWhile idChar ?r = c # r3"
    by (cases "dropWhile idChar ?r") (simp_all add: matchIdentifier_def Let_def)
  from m pre dw have c: "c = CHR ''_''" and len: "6 < length r3"
    and suf: "toLowerCase (drop (length r3 - 6) r3) = ''_video''"
    and lt: "\<not> list_ex isLineTerminator (take (length r3 - 6) r3)"
    and i: "i = takeWhile idChar ?r" and t: "t = take (length r3 - 6) r3" and ne: "takeWhile idChar ?r \<noteq> []"
    by (simp_all add: matchIdentifier_def Let_def split: if_splits)
  have "lank = take ?n lank @ ?r" by simp
  also have "?r = takeWhile idChar ?r @ dropWhile idChar ?r" by simp
  also have "dropWhile idChar ?r = ''_'' @ take (length r3 - 6) r3 @ drop (length r3 - 6) r3"
    by (simp add: dw c)
  finally have dec: "lank = take ?n lank @ i @ ''_'' @ t @ drop (length r3 - 6) r3"
    by (simp only: i t)
  have ic: "list_all idChar i" unfolding i list_all_iff by (auto dest: set_takeWhileD)
  have tn: "t \<noteq> []" using len by (auto simp: t)
  show ?thesis unfolding identifierShape_def
    using dec pre suf ne ic tn lt i t by blast
qed

lemma shape_matchIdentifier:
  assumes u: "\<not> idChar CHR ''_''" and s: "identifierShape prefix idChar lank i t"
  shows "matchIdentifier prefix idChar lank = Some (i, t)"
proof -
  from s obtain p v where dec: "lank = p @ i @ ''_'' @ t @ v" and p: "toLowerCase p = prefix"
    and v: "toLowerCase v = ''_video''" and ine: "i \<noteq> []" and ic: "list_all idChar i"
    and tne: "t \<noteq> []" and lt: "\<not> list_ex isLineTerminator t"
    unfolding identifierShape_def by blast
  from p have lp: "length p = length prefix" by (auto simp: toLowerCase_def)
  from v have lv: "length v = 6" by (auto simp: toLowerCase_def dest: arg_cong [where f = length])
  have tk: "take (length prefix) lank = p" and dr: "drop (length prefix) lank = i @ CHR ''_'' # t @ v"
    using lp by (simp_all add: dec)
  have tw: "takeWhile idChar (i @ CHR ''_'' # t @ v) = i"
    using ic u by (induction i) simp_all
  have dw: "dropWhile idChar (i @ CHR ''_'' # t @ v) = CHR ''_'' # t @ v"
    using ic u by (induction i) simp_all
  show ?thesis
    using p v ine tne lt lv
    by (simp add: matchIdentifier_def Let_def tk dr tw dw)
qed

lemma underscore_classes: "\<not> isPubIdChar CHR ''_''" "\<not> isDigit CHR ''_''"
  by (simp_all add: isPubIdChar_def isUpper_def isLower_def isDigit_def chr_code_def)

lemma docid_not_pub:
  assumes "identifierShape ''docid-'' isDigit lank i t"
  shows "matchIdentifier ''pub-'' isPubIdChar lank = None"
proof -
  from assms obtain p v where dec: "lank = p @ i @ ''_'' @ t @ v" and p: "toLowerCase p = ''docid-''"
    unfolding identifierShape_def by blast
  from p have lp: "length p = 6" by (auto simp: toLowerCase_def dest: arg_cong [where f = length])
  have "toLowerCase (take (length ''pub-'') lank) = take (length ''pub-'') (toLowerCase p)"
    using lp by (simp add: dec toLowerCase_def take_map)
  then have "toLowerCase (take (length ''pub-'') lank) \<noteq> ''pub-''" by (simp add: p)
  then show ?thesis by (simp add: matchIdentifier_def)
qed

text \<open>
  C5, amended. On a URL that gives a language and an identifier \<open>lank\<close>, \<open>parseVideoUrl\<close>
  recognizes exactly two shapes of the identifier, read without regard to the case of the
  letters of \<open>pub-\<close>, \<open>docid-\<close> and \<open>_VIDEO\<close>: \<open>pub-{id}_{track}_VIDEO\<close>, where the
  identifier is made of letters, digits and hyphens, gives the type \<open>pub\<close>, and
  \<open>docid-{id}_{track}_VIDEO\<close>, where it is made of digits, gives the type \<open>docid\<close>. An
  identifier of neither shape gives an \<open>INVALID_QUERY\<close> error whose message quotes it.
  With \<open>lank=pub-jwbvod25_41_VIDEO\<close> and \<open>wtlocale=E\<close> the result is the identifier
  \<open>jwbvod25\<close>, the track \<open>41\<close>, the language \<open>E\<close> and the type \<open>pub\<close>.
\<close>

theorem parseVideoUrl_shapes:
  "(parseURL u = Some urlObj \<and>
    nonEmpty (orElse (getParam (searchParams urlObj) ''wtlocale'')
                     (getParam (searchParams urlObj) ''appLanguage'')) = Some lang \<and>
    nonEmpty (orElse (getParam (searchParams urlObj) ''lank'')
                     (getParam (searchParams urlObj) ''item'')) = Some lank \<longrightarrow>
      (\<forall>i t. identifierShape ''pub-'' isPubIdChar lank i t \<longrightarrow>
         parseVideoUrl parseURL u = Inr \<lparr>pv_id = i, pv_track = t, pv_language = lang, pv_type = Pub\<rparr>) \<and>
      (\<forall>i t. identifierShape ''docid-'' isDigit lank i t \<longrightarrow>
         parseVideoUrl parseURL u = Inr \<lparr>pv_id = i, pv_track = t, pv_language = lang, pv_type = Docid\<rparr>) \<and>
      ((\<forall>i t. \<not> identifierShape ''pub-'' isPubIdChar lank i t) \<and>
       (\<forall>i t. \<not> identifierShape ''docid-'' isDigit lank i t) \<longrightarrow>
         parseVideoUrl parseURL u =
           Inl (WOLError INVALID_QUERY
                 (''Unrecognized video identifier format: '' @ lank @
                  ''. Expected formats like pub-{id}_{track}_VIDEO or docid-{id}_{track}_VIDEO'')))) \<and>
   (parseURL u = Some urlObj \<and>
    getParam (searchParams urlObj) ''lank'' = Some ''pub-jwbvod25_41_VIDEO'' \<and>
    getParam (searchParams urlObj) ''wtlocale'' = Some ''E'' \<longrightarrow>
      parseVideoUrl parseURL u =
        Inr \<lparr>pv_id = ''jwbvod25'', pv_track = ''41'', pv_language = ''E'', pv_type = Pub\<rparr>)"
proof (intro conjI allI impI)
  fix i t
  assume h: "parseURL u = Some urlObj \<and>
    nonEmpty (orElse (getParam (searchParams urlObj) ''wtlocale'')
                     (getParam (searchParams urlObj) ''appLanguage'')) = Some lang \<and>
    nonEmpty (orElse (getParam (searchParams urlObj) ''lank'')
                     (getParam (searchParams urlObj) ''item'')) = Some lank"
  {
    assume "identifierShape ''pub-'' isPubIdChar lank i t"
    from shape_matchIdentifier [OF underscore_classes(1) this] h
    show "parseVideoUrl parseURL u = Inr \<lparr>pv_id = i, pv_track = t, pv_language = lang, pv_type = Pub\<rparr>"
      by (simp add: parseVideoUrl_def)
  }
  {
    assume s: "identifierShape ''docid-'' isDigit lank i t"
    from shape_matchIdentifier [OF underscore_classes(2) s] docid_not_pub [OF s] h
    show "parseVideoUrl parseURL u = Inr \<lparr>pv_id = i, pv_track = t, pv_language = lang, pv_type = Docid\<rparr>"
      by (simp add: parseVideoUrl_def)
  }
next
  assume h: "parseURL u = Some urlObj \<and>
    nonEmpty (orElse (getParam (searchParams urlObj) ''wtlocale'')
                     (getParam (searchParams urlObj) ''appLanguage'')) = Some lang \<and>
    nonEmpty (orElse (getParam (searchParams urlObj) ''lank'')
                     (getParam (searchParams urlObj) ''item'')) = Some lank"
  assume n: "(\<forall>i t. \<not> identifierShape ''pub-'' isPubIdChar lank i t) \<and>
       (\<forall>i t. \<not> identifierShape ''docid-'' isDigit lank i t)"
  have 1: "matchIdentifier ''pub-'' isPubIdChar lank = None"
  proof (cases "matchIdentifier ''pub-'' isPubIdChar lank")
    case (Some g)
    then show ?thesis using matchIdentifier_shape [of "''pub-''" isPubIdChar lank "fst g" "snd g"] n
      by simp
  qed simp
  have 2: "matchIdentifier ''docid-'' isDigit lank = None"
  proof (cases "matchIdentifier ''docid-'' isDigit lank")
    case (Some g)
    then show ?thesis using matchIdentifier_shape [of "''docid-''" isDigit lank "fst g" "snd g"] n
      by simp
  qed simp
  from h 1 2 show "parseVideoUrl parseURL u =
           Inl (WOLError INVALID_QUERY
                 (''Unrecognized video identifier format: '' @ lank @
                  ''. Expected formats like pub-{id}_{track}_VIDEO or docid-{id}_{track}_VIDEO''))"
    by (simp add: parseVideoUrl_def createWOLError_def)
next
  assume h: "parseURL u = Some urlObj \<and>
    getParam (searchParams urlObj) ''lank'' = Some ''pub-jwbvod25_41_VIDEO'' \<and>
    getParam (searchParams urlObj) ''wtlocale'' = Some ''E''"
  have m: "matchIdentifier ''pub-'' isPubIdChar ''pub-jwbvod25_41_VIDEO'' = Some (''jwbvod25'', ''41'')"
    by code_simp
  from h m show "parseVideoUrl parseURL u =
        Inr \<lparr>pv_id = ''jwbvod25'', pv_track = ''41'', pv_language = ''E'', pv_type = Pub\<rparr>"
    by (simp add: parseVideoUrl_def orElse_def nonEmpty_def)
qed


theorem parseVideoUrl_shapes_witness:
  "parseVideoUrl (parseFinder ''E'' ''pub-jwb-133_1_VIDEO'') (finderLink ''E'' ''pub-jwb-133_1_VIDEO'') =
     Inr \<lparr>pv_id = ''jwb-133'', pv_track = ''1'', pv_language = ''E'', pv_type = Pub\<rparr> \<and>
   parseVideoUrl (parseFinder ''E'' ''docid-1112024040_1_VIDEO'') (finderLink ''E'' ''docid-1112024040_1_VIDEO'') =
     Inr \<lparr>pv_id = ''1112024040'', pv_track = ''1'', pv_language = ''E'', pv_type = Docid\<rparr> \<and>
   parseVideoUrl (parseFinder ''E'' ''video-41'') (finderLink ''E'' ''video-41'') =
     Inl (WOLError INVALID_QUERY
           (''Unrecognized video identifier format: video-41'' @
            ''. Expected formats like pub-{id}_{track}_VIDEO or docid-{id}_{track}_VIDEO'')) \<and>
   parseVideoUrl (parseFinder ''E'' ''pub-jwbvod25_41_VIDEO'') (finderLink ''E'' ''pub-jwbvod25_41_VIDEO'') =
     Inr \<lparr>pv_id = ''jwbvod25'', pv_track = ''41'', pv_language = ''E'', pv_type = Pub\<rparr>"
proof -
  have given: "\<And>lank. lank \<noteq> [] \<Longrightarrow>
      parseFinder ''E'' lank (finderLink ''E'' lank) = Some (finderURL ''E'' lank) \<and>
      nonEmpty (orElse (getParam (searchParams (finderURL ''E'' lank)) ''wtlocale'')
                       (getParam (searchParams (finderURL ''E'' lank)) ''appLanguage'')) = Some ''E'' \<and>
      nonEmpty (orElse (getParam (searchParams (finderURL ''E'' lank)) ''lank'')
                       (getParam (searchParams (finderURL ''E'' lank)) ''item'')) = Some lank"
    by (simp add: parseFinder_def finderURL_def getParam_def orElse_def nonEmpty_def)
  have s1: "identifierShape ''pub-'' isPubIdChar ''pub-jwb-133_1_VIDEO'' ''jwb-133'' ''1''"
    by (rule matchIdentifier_shape) code_simp
  have s2: "identifierShape ''docid-'' isDigit ''docid-1112024040_1_VIDEO'' ''1112024040'' ''1''"
    by (rule matchIdentifier_shape) code_simp
  have n1: "matchIdentifier ''pub-'' isPubIdChar ''video-41'' = None" by code_simp
  have n2: "matchIdentifier ''docid-'' isDigit ''video-41'' = None" by code_simp
  have s3: "(\<forall>i t. \<not> identifierShape ''pub-'' isPubIdChar ''video-41'' i t) \<and>
            (\<forall>i t. \<not> identifierShape ''docid-'' isDigit ''video-41'' i t)"
    using shape_matchIdentifier [of isPubIdChar "''pub-''" "''video-41''"]
          shape_matchIdentifier [of isDigit "''docid-''" "''video-41''"] underscore_classes n1 n2
    by auto
  have 1: "parseVideoUrl (parseFinder ''E'' ''pub-jwb-133_1_VIDEO'') (finderLink ''E'' ''pub-jwb-133_1_VIDEO'') =
     Inr \<lparr>pv_id = ''jwb-133'', pv_track = ''1'', pv_language = ''E'', pv_type = Pub\<rparr>"
    using parseVideoUrl_shapes [of "parseFinder ''E'' ''pub-jwb-133_1_VIDEO''" "finderLink ''E'' ''pub-jwb-133_1_VIDEO''"
        "finderURL ''E'' ''pub-jwb-133_1_VIDEO''" "''E''" "''pub-jwb-133_1_VIDEO''"]
      given [of "''pub-jwb-133_1_VIDEO''"] s1
    by blast
  have 2: "parseVideoUrl (parseFinder ''E'' ''docid-1112024040_1_VIDEO'') (finderLink ''E'' ''docid-1112024040_1_VIDEO'') =
     Inr \<lparr>pv_id = ''1112024040'', pv_track = ''1'', pv_language = ''E'', pv_type = Docid\<rparr>"
    using parseVideoUrl_shapes [of "parseFinder ''E'' ''docid-1112024040_1_VIDEO''"
        "finderLink ''E'' ''docid-1112024040_1_VIDEO''"
        "finderURL ''E'' ''docid-1112024040_1_VIDEO''" "''E''" "''docid-1112024040_1_VIDEO''"]
      given [of "''docid-1112024040_1_VIDEO''"] s2
    by blast
  have 3: "parseVideoUrl (parseFinder ''E'' ''video-41'') (finderLink ''E'' ''video-41'') =
     Inl (WOLError INVALID_QUERY
           (''Unrecognized video identifier format: '' @ ''video-41'' @
            ''. Expected formats like pub-{id}_{track}_VIDEO or docid-{id}_{track}_VIDEO''))"
    using parseVideoUrl_shapes [of "parseFinder ''E'' ''video-41''" "finderLink ''E'' ''video-41''"
        "finderURL ''E'' ''video-41''" "''E''" "''video-41''"]
      given [of "''video-41''"] s3
    by blast
  have g4: "parseFinder ''E'' ''pub-jwbvod25_41_VIDEO'' (finderLink ''E'' ''pub-jwbvod25_41_VIDEO'') =
              Some (finderURL ''E'' ''pub-jwbvod25_41_VIDEO'') \<and>
            getParam (searchParams (finderURL ''E'' ''pub-jwbvod25_41_VIDEO'')) ''lank'' = Some ''pub-jwbvod25_41_VIDEO'' \<and>
            getParam (searchParams (finderURL ''E'' ''pub-jwbvod25_41_VIDEO'')) ''wtlocale'' = Some ''E''"
    by (simp add: parseFinder_def finderURL_def getParam_def)
  have 4: "parseVideoUrl (parseFinder ''E'' ''pub-jwbvod25_41_VIDEO'') (finderLink ''E'' ''pub-jwbvod25_41_VIDEO'') =
     Inr \<lparr>pv_id = ''jwbvod25'', pv_track = ''41'', pv_language = ''E'', pv_type = Pub\<rparr>"
    using parseVideoUrl_shapes [of "parseFinder ''E'' ''pub-jwbvod25_41_VIDEO''"
        "finderLink ''E'' ''pub-jwbvod25_41_VIDEO''" "finderURL ''E'' ''pub-jwbvod25_41_VIDEO''"] g4
    by blast
  from 1 2 3 4 show ?thesis by simp
qed

text \<open>
  C5 as stated fails: the identifier \<open>PUB-jwbvod25_41_video\<close> begins with neither \<open>pub-\<close>
  nor \<open>docid-\<close> and does not end with \<open>_VIDEO\<close>, so it has neither shape as written, and
  \<open>parseVideoUrl\<close> accepts it with the type \<open>pub\<close>.
\<close>

theorem parseVideoUrl_case_counterexample:
  "\<not> startsWith ''PUB-jwbvod25_41_video'' ''pub-'' \<and>
   \<not> startsWith ''PUB-jwbvod25_41_video'' ''docid-'' \<and>
   \<not> endsWith ''PUB-jwbvod25_41_video'' ''_VIDEO'' \<and>
   parseVideoUrl (parseFinder ''E'' ''PUB-jwbvod25_41_video'') (finderLink ''E'' ''PUB-jwbvod25_41_video'') =
     Inr \<lparr>pv_id = ''jwbvod25'', pv_track = ''41'', pv_language = ''E'', pv_type = Pub\<rparr>"
proof -
  have m: "matchIdentifier ''pub-'' isPubIdChar ''PUB-jwbvod25_41_video'' = Some (''jwbvod25'', ''41'')"
    by code_simp
  have p: "parseVideoUrl (parseFinder ''E'' ''PUB-jwbvod25_41_video'') (finderLink ''E'' ''PUB-jwbvod25_41_video'') =
     Inr \<lparr>pv_id = ''jwbvod25'', pv_track = ''41'', pv_language = ''E'', pv_type = Pub\<rparr>"
    by (simp add: parseVideoUrl_def parseFinder_def finderURL_def getParam_def orElse_def nonEmpty_def m)
  have s: "\<not> startsWith ''PUB-jwbvod25_41_video'' ''pub-'' \<and>
   \<not> startsWith ''PUB-jwbvod25_41_video'' ''docid-'' \<and>
   \<not> endsWith ''PUB-jwbvod25_41_video'' ''_VIDEO''"
    by (simp add: startsWith_def endsWith_def)
  from p s show ?thesis by simp
qed


section \<open>Properties of the language routing\<close>

lemma splitBy_first:
  "(case splitBy sep s of p # ps \<Rightarrow> p | [] \<Rightarrow> []) = takeWhile (\<lambda>c. \<not> sep c) s"
  by (induction s) (auto split: list.splits)

text \<open>
  C6. The normalized code of a language is the lower-cased text before its first hyphen or
  underscore, and \<open>en\<close> when no language is given or that text is empty. When the routing
  table has no entry under the normalized code, \<open>resolveWolConfig\<close>, whose result the URL
  builders put in the URL, gives \<open>lp\<close> equal to the code, \<open>e\<close> for the code \<open>en\<close>, and
  \<open>rev\<close> equal to \<open>r1\<close>.
\<close>

theorem resolveWolConfig_fallback:
  "normalizeIsoLanguageCode language =
     (let seg = takeWhile (\<lambda>c. c \<noteq> CHR ''-'' \<and> c \<noteq> CHR ''_'')
                  (toLowerCase (case language of None \<Rightarrow> ''en'' | Some l \<Rightarrow> if l = [] then ''en'' else l))
      in if seg = [] then ''en'' else seg) \<and>
   (mapping (normalizeIsoLanguageCode language) = None \<longrightarrow>
      cfg_lp (resolveWolConfig mapping language) =
        (if normalizeIsoLanguageCode language = ''en'' then ''e'' else normalizeIsoLanguageCode language) \<and>
      cfg_rev (resolveWolConfig mapping language) = ''r1'')"
proof
  show "normalizeIsoLanguageCode language =
     (let seg = takeWhile (\<lambda>c. c \<noteq> CHR ''-'' \<and> c \<noteq> CHR ''_'')
                  (toLowerCase (case language of None \<Rightarrow> ''en'' | Some l \<Rightarrow> if l = [] then ''en'' else l))
      in if seg = [] then ''en'' else seg)"
    unfolding normalizeIsoLanguageCode_def Let_def splitBy_first nonEmpty_def
    by (cases language) auto
next
  show "mapping (normalizeIsoLanguageCode language) = None \<longrightarrow>
      cfg_lp (resolveWolConfig mapping language) =
        (if normalizeIsoLanguageCode language = ''en'' then ''e'' else normalizeIsoLanguageCode language) \<and>
      cfg_rev (resolveWolConfig mapping language) = ''r1''"
    by (simp add: resolveWolConfig_def Let_def nonEmpty_def)
qed

theorem resolveWolConfig_fallback_witness:
  "routes (normalizeIsoLanguageCode (Some ''Fr-CA'')) = None \<and>
   cfg_lp (resolveWolConfig routes (Some ''Fr-CA'')) = ''fr'' \<and>
   cfg_rev (resolveWolConfig routes (Some ''Fr-CA'')) = ''r1'' \<and>
   routes (normalizeIsoLanguageCode None) = None \<and>
   cfg_lp (resolveWolConfig routes None) = ''e'' \<and>
   cfg_rev (resolveWolConfig routes None) = ''r1''"
proof -
  have fr: "normalizeIsoLanguageCode (Some ''Fr-CA'') = ''fr''" by code_simp
  have en: "normalizeIsoLanguageCode None = ''en''" by code_simp
  have a: "routes (normalizeIsoLanguageCode (Some ''Fr-CA'')) = None" by (simp add: fr routes_def)
  have b: "routes (normalizeIsoLanguageCode None) = None" by (simp add: en routes_def)
  from resolveWolConfig_fallback [of "Some ''Fr-CA''" routes] a
       resolveWolConfig_fallback [of None routes] b
  show ?thesis by (simp add: fr en)
qed


section \<open>Properties of the search results\<close>

lemma num_max_le: "num_le a b \<Longrightarrow> num_max a b = b"
  by (cases a; cases b) (simp_all add: num_max_def)

lemma small_normal: "(1::rat) / 2 ^ 1022 \<le> 1 / 40"
proof -
  have "(40::rat) \<le> 2 ^ 6" by simp
  also have "\<dots> \<le> 2 ^ 1022" by (rule power_increasing) simp_all
  finally show ?thesis by (simp add: frac_le)
qed

lemma pages_of_positive:
  assumes r: "rounding rnd" and t: "num_le (Num 1) tot"
  shows "num_gt tot (Num 0) \<and> num_le (Num 1) (num_ceil (num_divide rnd tot 40))"
proof (cases tot)
  case NaN
  with t show ?thesis by simp
next
  case NegInf
  with t show ?thesis by simp
next
  case PosInf
  then show ?thesis by (simp add: num_gt_def)
next
  case (Num x)
  with t have x: "1 \<le> x" by simp
  then have "1 / 40 \<le> x / 40" by simp
  with small_normal have "1 / 2 ^ 1022 \<le> x / 40" by (rule order_trans)
  with r have low: "num_le (Num (x / 40 / 2)) (rnd (x / 40))" unfolding rounding_def by blast
  have pos: "0 < x / 40 / 2" using x by simp
  have "num_le (Num 1) (num_ceil (rnd (x / 40)))"
  proof (cases "rnd (x / 40)")
    case (Num q)
    with low pos have "0 < q" by simp
    then have "1 \<le> \<lceil>q\<rceil>" by (simp add: less_ceiling_iff [symmetric] ceiling_less_iff)
    then have "(1::rat) \<le> of_int \<lceil>q\<rceil>" by (metis of_int_1 of_int_le_iff)
    with Num show ?thesis by simp
  qed (use low in simp_all)
  with Num x show ?thesis by (simp add: num_gt_def)
qed

lemma countOf_digits:
  "matchCount badge = Some g \<Longrightarrow>
   countOf rnd badge = rnd (of_nat (digitsVal (filter (\<lambda>c. c \<noteq> CHR ''.'' \<and> c \<noteq> CHR '','') g)))"
proof -
  assume m: "matchCount badge = Some g"
  then obtain c r where g: "g = c # takeWhile isCountChar r" and dw: "dropWhile (\<lambda>c. \<not> isDigit c) badge = c # r"
    by (auto simp: matchCount_def split: list.splits)
  from dw have c: "isDigit c" using hd_dropWhile [of "\<lambda>c. \<not> isDigit c" badge] by simp
  let ?ds = "filter (\<lambda>c. c \<noteq> CHR ''.'' \<and> c \<noteq> CHR '','') g"
  have "\<forall>x\<in>set (takeWhile isCountChar r). isCountChar x" by (auto dest: set_takeWhileD)
  then have "list_all isDigit (filter (\<lambda>c. c \<noteq> CHR ''.'' \<and> c \<noteq> CHR '','') (takeWhile isCountChar r))"
    by (auto simp: list_all_iff isCountChar_def)
  moreover from c have "c \<noteq> CHR '',''" by (auto simp: isDigit_def chr_code_def)
  ultimately have ds: "?ds \<noteq> []" "list_all isDigit ?ds"
    using c digit_not_sign [OF c] by (simp_all add: g)
  from parseInt_digits [OF ds] m show ?thesis by (simp add: countOf_def)
qed

text \<open>
  The count and the number of pages follow the doubles of the code: for the badge
  \<open>1000000000000000256\<close>, a double, the quotient by 40 is rounded to 25000000000000008,
  where the exact quotient, rounded up, is 25000000000000007.
\<close>

lemma parseSearchResults_rounds:
  assumes "rnd 1000000000000000256 = Num 1000000000000000256"
    "rnd (1000000000000000256 / 40) = Num 25000000000000008"
  shows "pagination (parseSearchResults rnd (pageWithCount ''1000000000000000256'')) =
     \<lparr>totalResults = Num 1000000000000000256, pageSize = Num 40,
      totalPages = Num 25000000000000008, currentPage = Num 1\<rparr>"
proof -
  have m: "matchCount ''1000000000000000256'' = Some ''1000000000000000256''"
    by code_simp
  have d: "digitsVal (filter (\<lambda>c. c \<noteq> CHR ''.'' \<and> c \<noteq> CHR '','') ''1000000000000000256'') = 1000000000000000256"
    by (simp add: digitsVal_def chr_code_def)
  have c: "countOf rnd ''1000000000000000256'' = Num 1000000000000000256"
    using countOf_digits [OF m, of rnd] assms(1) unfolding d by simp
  have q: "num_divide rnd (Num 1000000000000000256) 40 = Num 25000000000000008"
    using assms(2) by (simp only: num_divide.simps)
  show ?thesis
    by (simp add: parseSearchResults_def pageWithCount_def c Let_def num_gt_def q del: num_divide.simps)
qed

text \<open>
  C7. The arithmetic is that of doubles, with the rounding of the platform. For every
  page, \<open>totalResults\<close> is the count read from the badge: the double for the whole number
  that the digits of the first run of digits, dots and commas write, 0 when the badge has no
  digit. With that count, whatever it is, \<open>pageSize\<close> is 40,
  \<open>totalPages = Math.max(1, Math.ceil(totalResults / 40))\<close>, and \<open>totalPages >= 1\<close>.
\<close>

theorem parseSearchResults_totalPages:
  "rounding rnd \<longrightarrow>
   totalResults (pagination (parseSearchResults rnd pg)) = countOf rnd (sp_countContainer pg) \<and>
   (\<forall>g. matchCount (sp_countContainer pg) = Some g \<longrightarrow>
      countOf rnd (sp_countContainer pg) =
        rnd (of_nat (digitsVal (filter (\<lambda>c. c \<noteq> CHR ''.'' \<and> c \<noteq> CHR '','') g)))) \<and>
   (matchCount (sp_countContainer pg) = None \<longrightarrow> countOf rnd (sp_countContainer pg) = Num 0) \<and>
   pageSize (pagination (parseSearchResults rnd pg)) = Num 40 \<and>
   totalPages (pagination (parseSearchResults rnd pg)) =
     num_max (Num 1) (num_ceil (num_divide rnd (totalResults (pagination (parseSearchResults rnd pg))) 40)) \<and>
   num_le (Num 1) (totalPages (pagination (parseSearchResults rnd pg)))"
proof
  assume r: "rounding rnd"
  let ?T = "countOf rnd (sp_countContainer pg)"
  let ?P = "if num_gt ?T (Num 0) then num_ceil (num_divide rnd ?T 40) else Num 1"
  have tr: "totalResults (pagination (parseSearchResults rnd pg)) = ?T"
    and ps: "pageSize (pagination (parseSearchResults rnd pg)) = Num 40"
    and tp: "totalPages (pagination (parseSearchResults rnd pg)) = ?P"
    by (simp_all add: parseSearchResults_def Let_def)
  have whole: "\<exists>n::nat. ?T = rnd (of_nat n)"
  proof (cases "matchCount (sp_countContainer pg)")
    case None
    then have "?T = rnd (of_nat 0)" using rounding_zero [OF r] by (simp add: countOf_def)
    then show ?thesis by blast
  next
    case (Some g)
    from countOf_digits [OF this] show ?thesis by blast
  qed
  then obtain n :: nat where n: "?T = rnd (of_nat n)" by blast
  have main: "?P = num_max (Num 1) (num_ceil (num_divide rnd ?T 40)) \<and> num_le (Num 1) ?P"
  proof (cases "n = 0")
    case True
    with n rounding_zero [OF r] have "?T = Num 0" by simp
    then show ?thesis using rounding_zero [OF r] by (simp add: num_gt_def num_max_def)
  next
    case False
    then have "num_le (Num 1) ?T" using rounding_one_le [OF r, of n] n by simp
    from pages_of_positive [OF r this] show ?thesis by (simp add: num_max_le)
  qed
  have dg: "\<forall>g. matchCount (sp_countContainer pg) = Some g \<longrightarrow>
      countOf rnd (sp_countContainer pg) =
        rnd (of_nat (digitsVal (filter (\<lambda>c. c \<noteq> CHR ''.'' \<and> c \<noteq> CHR '','') g)))"
    using countOf_digits by blast
  have nd: "matchCount (sp_countContainer pg) = None \<longrightarrow> countOf rnd (sp_countContainer pg) = Num 0"
    by (simp add: countOf_def)
  from main have m1: "totalPages (pagination (parseSearchResults rnd pg)) =
     num_max (Num 1) (num_ceil (num_divide rnd (totalResults (pagination (parseSearchResults rnd pg))) 40))"
    and m2: "num_le (Num 1) (totalPages (pagination (parseSearchResults rnd pg)))"
    unfolding tr tp by blast+
  from tr dg nd ps m1 m2
  show "totalResults (pagination (parseSearchResults rnd pg)) = countOf rnd (sp_countContainer pg) \<and>
   (\<forall>g. matchCount (sp_countContainer pg) = Some g \<longrightarrow>
      countOf rnd (sp_countContainer pg) =
        rnd (of_nat (digitsVal (filter (\<lambda>c. c \<noteq> CHR ''.'' \<and> c \<noteq> CHR '','') g)))) \<and>
   (matchCount (sp_countContainer pg) = None \<longrightarrow> countOf rnd (sp_countContainer pg) = Num 0) \<and>
   pageSize (pagination (parseSearchResults rnd pg)) = Num 40 \<and>
   totalPages (pagination (parseSearchResults rnd pg)) =
     num_max (Num 1) (num_ceil (num_divide rnd (totalResults (pagination (parseSearchResults rnd pg))) 40)) \<and>
   num_le (Num 1) (totalPages (pagination (parseSearchResults rnd pg)))"
    by blast
qed

theorem parseSearchResults_totalPages_witness:
  "rounding Num \<and>
   totalResults (pagination (parseSearchResults Num (pageWithCount ''1,234 results''))) = Num 1234 \<and>
   totalPages (pagination (parseSearchResults Num (pageWithCount ''1,234 results''))) = Num 31 \<and>
   totalResults (pagination (parseSearchResults Num (pageWithCount ''80 results''))) = Num 80 \<and>
   totalPages (pagination (parseSearchResults Num (pageWithCount ''80 results''))) = Num 2 \<and>
   totalResults (pagination (parseSearchResults Num (pageWithCount ''81 results''))) = Num 81 \<and>
   totalPages (pagination (parseSearchResults Num (pageWithCount ''81 results''))) = Num 3 \<and>
   totalResults (pagination (parseSearchResults Num (pageWithCount ''no results''))) = Num 0 \<and>
   totalPages (pagination (parseSearchResults Num (pageWithCount ''no results''))) = Num 1"
proof -
  have c: "countOf Num (sp_countContainer (pageWithCount ''1,234 results'')) = Num 1234"
    "countOf Num (sp_countContainer (pageWithCount ''80 results'')) = Num 80"
    "countOf Num (sp_countContainer (pageWithCount ''81 results'')) = Num 81"
    "countOf Num (sp_countContainer (pageWithCount ''no results'')) = Num 0"
    by code_simp+
  have p: "num_max (Num 1) (num_ceil (num_divide Num (Num 1234) 40)) = Num 31"
    "num_max (Num 1) (num_ceil (num_divide Num (Num 80) 40)) = Num 2"
    "num_max (Num 1) (num_ceil (num_divide Num (Num 81) 40)) = Num 3"
    "num_max (Num 1) (num_ceil (num_divide Num (Num 0) 40)) = Num 1"
    by code_simp+
  have w: "\<And>badge n k. countOf Num (sp_countContainer (pageWithCount badge)) = n \<Longrightarrow>
      num_max (Num 1) (num_ceil (num_divide Num n 40)) = k \<Longrightarrow>
      totalResults (pagination (parseSearchResults Num (pageWithCount badge))) = n \<and>
      totalPages (pagination (parseSearchResults Num (pageWithCount badge))) = k"
  proof -
    fix badge n k
    assume n: "countOf Num (sp_countContainer (pageWithCount badge)) = n"
      and k: "num_max (Num 1) (num_ceil (num_divide Num n 40)) = k"
    from parseSearchResults_totalPages [of Num "pageWithCount badge"] rounding_Num
    have a: "totalResults (pagination (parseSearchResults Num (pageWithCount badge))) =
               countOf Num (sp_countContainer (pageWithCount badge))"
      and b: "totalPages (pagination (parseSearchResults Num (pageWithCount badge))) =
               num_max (Num 1) (num_ceil (num_divide Num
                 (totalResults (pagination (parseSearchResults Num (pageWithCount badge)))) 40))"
      by blast+
    from a n have a': "totalResults (pagination (parseSearchResults Num (pageWithCount badge))) = n"
      by (rule trans)
    from b k show "totalResults (pagination (parseSearchResults Num (pageWithCount badge))) = n \<and>
      totalPages (pagination (parseSearchResults Num (pageWithCount badge))) = k"
      unfolding a' using a' by (simp only:)
  qed
  from w [OF c(1) p(1)] w [OF c(2) p(2)] w [OF c(3) p(3)] w [OF c(4) p(4)] rounding_Num
  show ?thesis by (simp only: simp_thms)
qed


section \<open>Properties of the subtitle result\<close>

lemma mem_dropWhile: "x \<in> set s \<Longrightarrow> \<not> Q x \<Longrightarrow> x \<in> set (dropWhile Q s)"
  by (induction s) auto

lemma trim_keeps: "x \<in> set s \<Longrightarrow> \<not> isWhite x \<Longrightarrow> x \<in> set (trim s)"
proof -
  assume x: "x \<in> set s" and w: "\<not> isWhite x"
  from mem_dropWhile [of x s isWhite] x w have "x \<in> set (rev (dropWhile isWhite s))" by simp
  with mem_dropWhile [of x "rev (dropWhile isWhite s)" isWhite] w show ?thesis by (simp add: trim_def)
qed

lemma visible_trim: "visible s \<Longrightarrow> trim s \<noteq> []"
  using trim_keeps by (fastforce simp: visible_def)

lemma trim_visible: "trim s \<noteq> [] \<Longrightarrow> visible (trim s)"
proof -
  assume ne: "trim s \<noteq> []"
  let ?z = "dropWhile isWhite (rev (dropWhile isWhite s))"
  from ne have z: "?z \<noteq> []" by (simp add: trim_def)
  then have "\<not> isWhite (hd ?z)" by (rule hd_dropWhile)
  moreover from z have "hd ?z \<in> set ?z" by simp
  ultimately show ?thesis by (auto simp: visible_def trim_def)
qed

lemma collectText_visible: "x \<in> set (collectText b ls) \<Longrightarrow> visible x"
proof (induction ls arbitrary: b)
  case Nil
  then show ?case by simp
next
  case (Cons l ls)
  then show ?case
    by (auto simp: Let_def cleanCueText_def trim_visible split: if_splits)
qed

lemma endsWith_nonempty: "endsWith cur line \<Longrightarrow> line \<noteq> [] \<Longrightarrow> cur \<noteq> []"
  by (auto simp: endsWith_def)

lemma joinSentences_last:
  "cur = [] \<or> visible cur \<Longrightarrow> \<forall>x\<in>set ls. visible x \<Longrightarrow> cur \<noteq> [] \<or> ls \<noteq> [] \<Longrightarrow>
   \<exists>ys y. joinSentences cur res ls = ys @ [y] \<and> y \<noteq> []"
proof (induction ls arbitrary: cur res)
  case Nil
  then have "cur \<noteq> []" by simp
  with Nil have "visible cur" by blast
  then have "trim cur \<noteq> []" by (rule visible_trim)
  with \<open>cur \<noteq> []\<close> show ?case by simp
next
  case (Cons line rest)
  from Cons.prems(2) have vl: "visible line" and vr: "\<forall>x\<in>set rest. visible x" by simp_all
  from vl have ln: "line \<noteq> []" by (auto simp: visible_def)
  show ?case
  proof (cases "endsWith cur line")
    case True
    with ln have "cur \<noteq> []" using endsWith_nonempty by blast
    with Cons.IH [OF Cons.prems(1) vr, of res] True show ?thesis by simp
  next
    case False
    have 1: "visible (cur @ '' '' @ line)" using vl by (auto simp: visible_def)
    from Cons.IH [of "cur @ '' '' @ line" res] 1 vr
    have a: "\<exists>ys y. joinSentences (cur @ '' '' @ line) res rest = ys @ [y] \<and> y \<noteq> []" by simp
    from Cons.IH [of line] vl vr ln
    have b: "\<And>res'. \<exists>ys y. joinSentences line res' rest = ys @ [y] \<and> y \<noteq> []" by simp
    from False a b show ?thesis by simp
  qed
qed

lemma join_last: "y \<noteq> [] \<Longrightarrow> join sep (ys @ [y]) \<noteq> []"
  by (induction sep ys rule: join.induct) auto

lemma plain_nonempty:
  assumes "collectText False (splitOn newline content) \<noteq> []"
  shows "vttToPlainText content \<noteq> []"
proof -
  let ?tl = "collectText False (splitOn newline content)"
  have "\<forall>x\<in>set ?tl. visible x" using collectText_visible by blast
  with assms joinSentences_last [of "[]" ?tl "[]"]
  obtain ys y where "joinSentences [] [] ?tl = ys @ [y]" "y \<noteq> []" by auto
  then show ?thesis by (simp add: vttToPlainText_def join_last)
qed























section \<open>Properties of the plain-text conversion\<close>

text \<open>
  C10. In the joining loop of \<open>vttToPlainText\<close> a fragment is skipped whenever the sentence
  built so far ends with it, whatever the fragment before it was. So a fragment that differs
  from its predecessor is lost when it is a suffix of the sentence: the cues \<open>I said no\<close>
  and \<open>no\<close> give the text \<open>I said no\<close>.
\<close>

theorem vttToPlainText_drops_suffix:
  "(\<forall>currentSentence result line rest.
      endsWith currentSentence line \<longrightarrow>
      joinSentences currentSentence result (line # rest) = joinSentences currentSentence result rest) \<and>
   collectText False (splitOn newline vtt_suffix) = [''I said no'', ''no''] \<and>
   vttToPlainText vtt_suffix = ''I said no''"
proof (intro conjI allI impI)
  fix currentSentence result line rest
  assume "endsWith currentSentence line"
  then show "joinSentences currentSentence result (line # rest) = joinSentences currentSentence result rest"
    by simp
next
  show "collectText False (splitOn newline vtt_suffix) = [''I said no'', ''no'']"
    by code_simp
next
  show "vttToPlainText vtt_suffix = ''I said no''"
    by code_simp
qed

theorem vttToPlainText_drops_suffix_witness:
  "endsWith ''I said no'' ''no'' \<and>
   joinSentences ''I said no'' [] [''no''] = joinSentences ''I said no'' [] [] \<and>
   joinSentences ''I said no'' [] [''no''] = [''I said no'']"
proof -
  have e: "endsWith ''I said no'' ''no''" by code_simp
  have j: "joinSentences ''I said no'' [] [] = [''I said no'']" by code_simp
  from vttToPlainText_drops_suffix e
  have "joinSentences ''I said no'' [] [''no''] = joinSentences ''I said no'' [] []" by blast
  with e j show ?thesis by simp
qed


end
